theory Spec2Isabelle
  imports Main "HOL-Library.AList" "HOL-Library.Multiset"
begin

section \<open>JavaScript values\<close>

text \<open>
  The translation dictionaries, the project collection and the cache entries are
  what \<^verbatim>\<open>JSON.parse\<close> and \<^verbatim>\<open>response.json()\<close> return: trees of objects, arrays,
  strings, numbers, booleans and \<^verbatim>\<open>null\<close>. The code is dynamically typed, so the
  arguments of \<^verbatim>\<open>I18n.t\<close> are values as well; \<^verbatim>\<open>undefined\<close> and built-in functions
  (what a property read such as \<^verbatim>\<open>obj["toString"]\<close> gives) are values too.
  Strings are byte lists (text outside ASCII is its UTF-8 encoding); numbers are
  integers, which is what the timestamps of \<^verbatim>\<open>Date.now()\<close> are.
\<close>

datatype jsval =
    JUndefined
  | JNull
  | JBool bool
  | JNum int
  | JStr string
  | JArr "jsval list"
  | JObj "(string \<times> jsval) list"
  | JFun string

datatype error = TypeError | SyntaxError | NetworkError | HttpError int

text \<open>
  What the JavaScript host supplies and the repository does not define: the properties
  a value has apart from the own fields of a JSON object (inherited ones such as
  \<^verbatim>\<open>constructor\<close>, the \<^verbatim>\<open>length\<close> and indices of strings and arrays),
  \<^verbatim>\<open>JSON.parse\<close> (\<open>None\<close> when it throws), the coercions to number (\<open>None\<close> is
  \<^verbatim>\<open>NaN\<close>) and to string, and the own properties that a spread \<^verbatim>\<open>{ ...v }\<close> copies
  from a value other than an object. Every theorem below holds for every host.
\<close>

record host =
  inherited :: "jsval \<Rightarrow> string \<Rightarrow> jsval"
  JSON_parse :: "string \<Rightarrow> jsval option"
  ToNumber :: "jsval \<Rightarrow> int option"
  ToString :: "jsval \<Rightarrow> string"
  entries :: "jsval \<Rightarrow> (string \<times> jsval) list"

text \<open>Truthiness, as \<^verbatim>\<open>!x\<close>, \<^verbatim>\<open>x && y\<close> and \<^verbatim>\<open>if (x)\<close> test it.\<close>

fun truthy :: "jsval \<Rightarrow> bool" where
  "truthy JUndefined = False"
| "truthy JNull = False"
| "truthy (JBool b) = b"
| "truthy (JNum n) = (n \<noteq> 0)"
| "truthy (JStr s) = (s \<noteq> [])"
| "truthy (JArr xs) = True"
| "truthy (JObj fs) = True"
| "truthy (JFun f) = True"

text \<open>
  The property read \<^verbatim>\<open>v[k]\<close> on a value that is neither \<^verbatim>\<open>null\<close> nor
  \<^verbatim>\<open>undefined\<close> (on those it throws, see \<open>read_prop\<close>): an own field of an object
  first, whatever the host supplies otherwise.
\<close>

fun get_prop :: "host \<Rightarrow> jsval \<Rightarrow> string \<Rightarrow> jsval" where
  "get_prop h (JObj fs) k = (case map_of fs k of Some v \<Rightarrow> v | None \<Rightarrow> inherited h (JObj fs) k)"
| "get_prop h v k = inherited h v k"

definition read_prop :: "host \<Rightarrow> jsval \<Rightarrow> string \<Rightarrow> error + jsval" where
  "read_prop h v k =
     (if v = JUndefined \<or> v = JNull then Inl TypeError else Inr (get_prop h v k))"

text \<open>\<^verbatim>\<open>try { m } catch (error) { handler }\<close>.\<close>

definition try_catch :: "error + 'a \<Rightarrow> (error \<Rightarrow> error + 'a) \<Rightarrow> error + 'a" where
  "try_catch m handler = (case m of Inl e \<Rightarrow> handler e | Inr v \<Rightarrow> Inr v)"

section \<open>Strings\<close>

text \<open>\<^verbatim>\<open>s.split(sep)\<close> with a one-character separator: never the empty array.\<close>

fun split_on :: "char \<Rightarrow> string \<Rightarrow> string list" where
  "split_on sep [] = [[]]"
| "split_on sep (c # cs) =
     (if c = sep then [] # split_on sep cs
      else (case split_on sep cs of [] \<Rightarrow> [[c]] | w # ws \<Rightarrow> (c # w) # ws))"

text \<open>
  The method call \<^verbatim>\<open>key.split('.')\<close> on an arbitrary value: only strings have the
  method, on anything else the call is a \<^verbatim>\<open>TypeError\<close>.
\<close>

fun split_method :: "jsval \<Rightarrow> error + string list" where
  "split_method (JStr s) = Inr (split_on (CHR ''.'') s)"
| "split_method v = Inl TypeError"

definition lower_chars :: string where
  "lower_chars = ''abcdefghijklmnopqrstuvwxyz''"

definition upper_chars :: string where
  "upper_chars = ''ABCDEFGHIJKLMNOPQRSTUVWXYZ''"

text \<open>The class \<^verbatim>\<open>\w\<close> of a regular expression without the unicode flag.\<close>

definition word_char :: "char \<Rightarrow> bool" where
  "word_char c = (c \<in> set (lower_chars @ upper_chars @ ''0123456789_''))"

text \<open>\<^verbatim>\<open>l.toUpperCase()\<close> on one character matched by \<^verbatim>\<open>\w\<close>.\<close>

definition toUpperCase :: "char \<Rightarrow> char" where
  "toUpperCase c = (case map_of (zip lower_chars upper_chars) c of Some u \<Rightarrow> u | None \<Rightarrow> c)"

text \<open>\<^verbatim>\<open>.replace(/[_-]/g, ' ')\<close>\<close>

definition replace_separators :: "string \<Rightarrow> string" where
  "replace_separators s = map (\<lambda>c. if c = CHR ''_'' \<or> c = CHR ''-'' then CHR '' '' else c) s"

text \<open>
  \<^verbatim>\<open>.replace(/\b\w/g, l => l.toUpperCase())\<close>: a word character is replaced when
  the character before it is not a word character (or there is none). The flag says
  whether the previous character was a word character.
\<close>

fun capitalize_words :: "bool \<Rightarrow> string \<Rightarrow> string" where
  "capitalize_words prev [] = []"
| "capitalize_words prev (c # cs) =
     (if word_char c \<and> \<not> prev then toUpperCase c else c) # capitalize_words (word_char c) cs"

text \<open>
  \<^verbatim>\<open>.replace(/([a-z])([A-Z])/g, '$1 $2')\<close>: matches do not overlap, the scan goes
  on after the upper-case letter.
\<close>

fun split_camel :: "string \<Rightarrow> string" where
  "split_camel (a # b # cs) =
     (if a \<in> set lower_chars \<and> b \<in> set upper_chars then a # CHR '' '' # b # split_camel cs
      else a # split_camel (b # cs))"
| "split_camel cs = cs"

section \<open>The translation store (class I18n)\<close>

record i18n =
  currentLang :: string
  translations_map :: "(string \<times> jsval) list"
  fallbackLang :: string
  storageKey :: string

text \<open>
  The constructor. The field \<^verbatim>\<open>this.translations\<close> is an object, created empty; its
  own properties are the dictionaries, by language code.
\<close>

definition I18n_new :: i18n where
  "I18n_new = \<lparr> currentLang = ''en'', translations_map = [], fallbackLang = ''en'',
                storageKey = ''preferred-language'' \<rparr>"

text \<open>
  \<^verbatim>\<open>getNestedValue(obj, path)\<close>. The reducer reads \<^verbatim>\<open>current[key]\<close> only behind
  the guard \<^verbatim>\<open>current &&\<close>; its two branches \<^verbatim>\<open>current[key] !== undefined ?
  current[key] : undefined\<close> are the same value.
\<close>

definition nested_step :: "host \<Rightarrow> jsval \<Rightarrow> string \<Rightarrow> error + jsval" where
  "nested_step h current key =
     (if truthy current then read_prop h current key else Inr JUndefined)"

fun reduce :: "('a \<Rightarrow> 'b \<Rightarrow> error + 'a) \<Rightarrow> 'a \<Rightarrow> 'b list \<Rightarrow> error + 'a" where
  "reduce f acc [] = Inr acc"
| "reduce f acc (x # xs) = (case f acc x of Inl e \<Rightarrow> Inl e | Inr acc' \<Rightarrow> reduce f acc' xs)"

definition getNestedValue :: "host \<Rightarrow> jsval \<Rightarrow> jsval \<Rightarrow> error + jsval" where
  "getNestedValue h obj path =
     (if \<not> truthy obj \<or> \<not> truthy path then Inr JUndefined
      else try_catch
             (case split_method path of
                Inl e \<Rightarrow> Inl e
              | Inr parts \<Rightarrow> reduce (nested_step h) obj parts)
             (\<lambda>error. Inr JUndefined))"

text \<open>
  \<^verbatim>\<open>handleMissingKey(key, fallback)\<close>: the placeholder is built from the last
  segment of the key when the fallback is the default one.
\<close>

definition handleMissingKey :: "jsval \<Rightarrow> jsval \<Rightarrow> error + jsval" where
  "handleMissingKey key fallback =
     (if fallback = JStr ''[MISSING]'' then
        (case split_method key of
           Inl e \<Rightarrow> Inl e
         | Inr parts \<Rightarrow>
             Inr (JStr (''[MISSING: ''
                        @ capitalize_words False (replace_separators (last parts)) @ '']'')))
      else Inr fallback)"

text \<open>The test \<^verbatim>\<open>x !== undefined && x !== null && x !== ''\<close>.\<close>

definition usable :: "jsval \<Rightarrow> bool" where
  "usable x = (x \<noteq> JUndefined \<and> x \<noteq> JNull \<and> x \<noteq> JStr [])"

text \<open>\<^verbatim>\<open>this.getNestedValue(this.translations[lang], key)\<close>\<close>

definition translation_in :: "host \<Rightarrow> i18n \<Rightarrow> string \<Rightarrow> jsval \<Rightarrow> error + jsval" where
  "translation_in h s lang key =
     getNestedValue h (get_prop h (JObj (translations_map s)) lang) key"

text \<open>The body of the \<^verbatim>\<open>try\<close> block of \<^verbatim>\<open>t\<close>.\<close>

definition t_body :: "host \<Rightarrow> i18n \<Rightarrow> jsval \<Rightarrow> jsval \<Rightarrow> error + jsval" where
  "t_body h s key fallback =
     (case translation_in h s (currentLang s) key of
        Inl e \<Rightarrow> Inl e
      | Inr translation \<Rightarrow>
          if usable translation then Inr translation
          else if currentLang s \<noteq> fallbackLang s then
            (case translation_in h s (fallbackLang s) key of
               Inl e \<Rightarrow> Inl e
             | Inr fallbackTranslation \<Rightarrow>
                 if usable fallbackTranslation then Inr fallbackTranslation
                 else handleMissingKey key fallback)
          else handleMissingKey key fallback)"

text \<open>
  \<^verbatim>\<open>t(key, fallback = '[MISSING]')\<close>: the default applies when the second argument
  is absent, that is \<^verbatim>\<open>undefined\<close>. An error of the \<^verbatim>\<open>catch\<close> block itself reaches
  the caller.
\<close>

definition t :: "host \<Rightarrow> i18n \<Rightarrow> jsval \<Rightarrow> jsval \<Rightarrow> error + jsval" where
  "t h s key fb =
     (let fallback = (if fb = JUndefined then JStr ''[MISSING]'' else fb)
      in try_catch (t_body h s key fallback) (\<lambda>error. handleMissingKey key fallback))"

section \<open>Fallback text of the error handler (class ErrorHandler)\<close>

text \<open>
  \<^verbatim>\<open>generateFallbackText(key)\<close>, whose comment reads "Convert snake_case or camelCase
  to Title Case"; the key is the string of a \<^verbatim>\<open>data-i18n\<close> attribute.
\<close>

definition generateFallbackText :: "string \<Rightarrow> string" where
  "generateFallbackText key =
     (let parts = split_on (CHR ''.'') key; lastPart = last parts
      in capitalize_words False (split_camel (replace_separators lastPart)))"

section \<open>A plain host for the concrete examples\<close>

text \<open>
  A host in which a value has no property beyond the own fields of an object, only
  numbers convert to numbers and only strings to (their own) text, and the parser reads
  one text, a cache entry written at the time 1000. The concrete instances of the
  theorems are evaluated in it.
\<close>

definition example_cache_text :: string where
  \<open>example_cache_text = ''{"translations":{"nav":{"home":"Start"}},"timestamp":1000}''\<close>

definition example_cache_data :: jsval where
  "example_cache_data =
     JObj [(''translations'', JObj [(''nav'', JObj [(''home'', JStr ''Start'')])]),
           (''timestamp'', JNum 1000)]"

definition plain_host :: host where
  "plain_host =
     \<lparr> inherited = (\<lambda>v k. JUndefined),
       JSON_parse = (\<lambda>text. if text = example_cache_text then Some example_cache_data else None),
       ToNumber = (\<lambda>v. case v of JNum n \<Rightarrow> Some n | _ \<Rightarrow> None),
       ToString = (\<lambda>v. case v of JStr s \<Rightarrow> s | _ \<Rightarrow> []),
       entries = (\<lambda>v. []) \<rparr>"

section \<open>The page: document, storage, collaborators\<close>

text \<open>
  The document as the binder sees it: its elements in document order, each with its tag,
  its attributes and its text content. Elements that carry a translation key are taken
  not to contain one another, and attribute names are taken as the markup writes them
  (in lower case). \<^verbatim>\<open>document.title\<close> and the \<^verbatim>\<open>lang\<close> attribute of the root
  element are fields of the page.
\<close>

record element =
  tag :: string
  attrs :: "(string \<times> string) list"
  textContent :: string

text \<open>\<^verbatim>\<open>getAttribute\<close> gives \<^verbatim>\<open>null\<close>, here \<open>None\<close>, for an absent attribute.\<close>

definition getAttribute :: "element \<Rightarrow> string \<Rightarrow> string option" where
  "getAttribute e name = map_of (attrs e) name"

definition hasAttribute :: "element \<Rightarrow> string \<Rightarrow> bool" where
  "hasAttribute e name = (map_of (attrs e) name \<noteq> None)"

definition setAttribute :: "element \<Rightarrow> string \<Rightarrow> string \<Rightarrow> element" where
  "setAttribute e name v = e \<lparr> attrs := AList.update name v (attrs e) \<rparr>"

text \<open>
  The setter of \<^verbatim>\<open>textContent\<close> takes \<^verbatim>\<open>null\<close> and \<^verbatim>\<open>undefined\<close> for the empty
  string and converts everything else to a string.
\<close>

definition textContent_of :: "host \<Rightarrow> jsval \<Rightarrow> string" where
  "textContent_of h v = (if v = JNull \<or> v = JUndefined then [] else ToString h v)"

text \<open>
  \<^verbatim>\<open>localStorage\<close>: the stored items, and the keys that \<^verbatim>\<open>getItem\<close> was called
  with, in order.
\<close>

record storage =
  items :: "string \<rightharpoonup> string"
  reads :: "string list"

definition getItem :: "storage \<Rightarrow> string \<Rightarrow> string option \<times> storage" where
  "getItem st k = (items st k, st \<lparr> reads := reads st @ [k] \<rparr>)"


text \<open>
  What \<^verbatim>\<open>set\<close> asks of the other parts of the page, recorded in order: the language
  switcher's pressed state, the SEO manager's hreflang links (it writes the same
  \<^verbatim>\<open>lang\<close> attribute and locale again), the \<^verbatim>\<open>languageChanged\<close> event and the
  direct call of the application, which re-render what they built from translated text.
\<close>

datatype call =
    UpdateLanguageSwitcher string
  | UpdateHreflangTags string
  | LanguageChanged string
  | HandleLanguageChange string

record page =
  store :: i18n
  localStorage :: storage
  html_lang :: string
  document_title :: string
  elements :: "element list"
  seoManager :: bool
  app :: bool
  calls :: "call list"

text \<open>Sequencing of steps that may throw.\<close>

definition and_then :: "error + 'a \<Rightarrow> ('a \<Rightarrow> error + 'b) \<Rightarrow> error + 'b" where
  "and_then m f = (case m of Inl e \<Rightarrow> Inl e | Inr v \<Rightarrow> f v)"

text \<open>\<^verbatim>\<open>elements.forEach(...)\<close> with a callback that rewrites the element.\<close>

fun forEach :: "('a \<Rightarrow> error + 'a) \<Rightarrow> 'a list \<Rightarrow> error + 'a list" where
  "forEach f [] = Inr []"
| "forEach f (x # xs) =
     and_then (f x) (\<lambda>y. and_then (forEach f xs) (\<lambda>ys. Inr (y # ys)))"


text \<open>
  \<^verbatim>\<open>applyTranslations()\<close>: the callback on one element. The selector
  \<^verbatim>\<open>[data-i18n]\<close> leaves the elements without the attribute alone.
\<close>

definition translate_element :: "host \<Rightarrow> i18n \<Rightarrow> element \<Rightarrow> error + element" where
  "translate_element h s e =
     (case getAttribute e ''data-i18n'' of
        None \<Rightarrow> Inr e
      | Some key \<Rightarrow>
          and_then (t h s (JStr key) JUndefined) (\<lambda>translation.
            case getAttribute e ''data-i18n-attr'' of
              Some attr \<Rightarrow> Inr (setAttribute e attr (ToString h translation))
            | None \<Rightarrow> Inr (e \<lparr> textContent := textContent_of h translation \<rparr>)))"

definition applyTranslations :: "host \<Rightarrow> i18n \<Rightarrow> element list \<Rightarrow> error + element list" where
  "applyTranslations h s els = forEach (translate_element h s) els"









text \<open>
  The binding of an element: the key whose translation the binder writes into the
  element's text, if there is one (the element has a key and no attribute target).
\<close>

definition text_binding :: "element \<Rightarrow> string option" where
  "text_binding e =
     (if hasAttribute e ''data-i18n-attr'' then None else getAttribute e ''data-i18n'')"


section \<open>Loading the dictionaries\<close>

text \<open>Text outside ASCII, by its UTF-8 bytes.\<close>

definition utf8 :: "nat list \<Rightarrow> string" where
  "utf8 bytes = map char_of bytes"

text \<open>The table \<^verbatim>\<open>fallbacks\<close> of \<^verbatim>\<open>getFallbackTranslations\<close>.\<close>

definition fallbacks :: jsval where
  "fallbacks =
   JObj
       [(''en'', JObj
          [(''nav'', JObj
             [(''home'', JStr ''Home''),
              (''about'', JStr ''About Us''),
              (''projects'', JStr ''Projects''),
              (''contact'', JStr ''Contact''),
              (''logo'', JStr ''ConstructCo'')]),
           (''hero'', JObj
             [(''title'', JStr ''Professional Construction Consulting''),
              (''subtitle'', JStr ''Expert guidance for your construction projects''),
              (''cta'', JStr ''View Our Projects'')]),
           (''loading'', JObj
             [(''default'', JStr ''Loading...''),
              (''error'', JStr ''Failed to load content. Please try again.'')])]),
        (''lo'', JObj
          [(''nav'', JObj
             [(''home'', JStr (utf8
                [224, 187, 156, 224, 187, 137, 224, 186, 178, 224, 186, 171, 224, 186,
                 188, 224, 186, 177, 224, 186, 129])),
              (''about'', JStr (utf8
                [224, 186, 129, 224, 187, 136, 224, 186, 189, 224, 186, 167, 224, 186,
                 129, 224, 186, 177, 224, 186, 154, 224, 186, 158, 224, 186, 167, 224,
                 186, 129, 224, 187, 128, 224, 186, 174, 224, 186, 187, 224, 186, 178])),
              (''projects'', JStr (utf8
                [224, 187, 130, 224, 186, 132, 224, 186, 135, 224, 186, 129, 224, 186,
                 178, 224, 186, 153])),
              (''contact'', JStr (utf8
                [224, 186, 149, 224, 186, 180, 224, 186, 148, 224, 186, 149, 224, 187,
                 141, 224, 187, 136])),
              (''logo'', JStr ''ConstructCo'')]),
           (''hero'', JObj
             [(''title'', JStr (utf8
                [224, 186, 154, 224, 187, 141, 224, 186, 165, 224, 186, 180, 224, 186,
                 129, 224, 186, 178, 224, 186, 153, 224, 186, 155, 224, 186, 182, 224,
                 186, 129, 224, 186, 170, 224, 186, 178, 224, 186, 129, 224, 187, 141,
                 224, 187, 136, 224, 186, 170, 224, 187, 137, 224, 186, 178, 224, 186,
                 135, 224, 187, 129, 224, 186, 154, 224, 186, 154, 224, 186, 161, 224,
                 186, 183, 224, 186, 173, 224, 186, 178, 224, 186, 138, 224, 186, 181,
                 224, 186, 154])),
              (''subtitle'', JStr (utf8
                [224, 186, 132, 224, 187, 141, 224, 186, 178, 224, 187, 129, 224, 186,
                 153, 224, 186, 176, 224, 186, 153, 224, 187, 141, 224, 186, 178, 224,
                 186, 136, 224, 186, 178, 224, 186, 129, 224, 186, 156, 224, 186, 185,
                 224, 187, 137, 224, 186, 138, 224, 187, 136, 224, 186, 189, 224, 186,
                 167, 224, 186, 138, 224, 186, 178, 224, 186, 153, 224, 186, 170, 224,
                 187, 141, 224, 186, 178, 224, 186, 165, 224, 186, 177, 224, 186, 154,
                 224, 187, 130, 224, 186, 132, 224, 186, 135, 224, 186, 129, 224, 186,
                 178, 224, 186, 153, 224, 186, 129, 224, 187, 141, 224, 187, 136, 224,
                 186, 170, 224, 187, 137, 224, 186, 178, 224, 186, 135, 224, 186, 130,
                 224, 186, 173, 224, 186, 135, 224, 186, 151, 224, 187, 136, 224, 186,
                 178, 224, 186, 153])),
              (''cta'', JStr (utf8
                [224, 187, 128, 224, 186, 154, 224, 186, 180, 224, 187, 136, 224, 186,
                 135, 224, 187, 130, 224, 186, 132, 224, 186, 135, 224, 186, 129, 224,
                 186, 178, 224, 186, 153, 224, 186, 130, 224, 186, 173, 224, 186, 135,
                 224, 186, 158, 224, 186, 167, 224, 186, 129, 224, 187, 128, 224, 186,
                 174, 224, 186, 187, 224, 186, 178]))]),
           (''loading'', JObj
             [(''default'', JStr (utf8
                [224, 186, 129, 224, 187, 141, 224, 186, 178, 224, 186, 165, 224, 186,
                 177, 224, 186, 135, 224, 187, 130, 224, 186, 171, 224, 186, 165, 224,
                 186, 148, 46, 46, 46])),
              (''error'', JStr (utf8
                [224, 186, 154, 224, 187, 141, 224, 187, 136, 224, 186, 170, 224, 186,
                 178, 224, 186, 161, 224, 186, 178, 224, 186, 148, 224, 187, 130, 224,
                 186, 171, 224, 186, 165, 224, 186, 148, 224, 187, 128, 224, 186, 153,
                 224, 186, 183, 224, 187, 137, 224, 186, 173, 224, 186, 171, 224, 186,
                 178, 224, 187, 132, 224, 186, 148, 224, 187, 137, 46, 32, 224, 186,
                 129, 224, 186, 176, 224, 186, 165, 224, 186, 184, 224, 186, 153, 224,
                 186, 178, 224, 186, 165, 224, 186, 173, 224, 186, 135, 224, 187, 131,
                 224, 187, 157, 224, 187, 136, 46]))])])]"

text \<open>\<^verbatim>\<open>return fallbacks[lang] || fallbacks.en\<close>\<close>

definition getFallbackTranslations :: "host \<Rightarrow> string \<Rightarrow> jsval" where
  "getFallbackTranslations h lang =
     (if truthy (get_prop h fallbacks lang) then get_prop h fallbacks lang
      else get_prop h fallbacks ''en'')"

text \<open>What \<^verbatim>\<open>fetch\<close> resolves to; a rejection is an error.\<close>

record response =
  ok :: bool
  status :: int
  body :: string

text \<open>\<^verbatim>\<open>response.json()\<close> throws on text that is not JSON.\<close>

definition response_json :: "host \<Rightarrow> response \<Rightarrow> error + jsval" where
  "response_json h r = (case JSON_parse h (body r) of None \<Rightarrow> Inl SyntaxError | Some v \<Rightarrow> Inr v)"

definition cache_key :: "string \<Rightarrow> string" where
  "cache_key lang = ''i18n-cache-'' @ lang"

text \<open>The operand of a subtraction as a number: a number is itself, the host converts the rest.\<close>

definition to_number :: "host \<Rightarrow> jsval \<Rightarrow> int option" where
  "to_number h v = (case v of JNum n \<Rightarrow> Some n | _ \<Rightarrow> ToNumber h v)"

text \<open>
  \<^verbatim>\<open>Date.now() - data.timestamp < 24 * 60 * 60 * 1000\<close>; a comparison with
  \<^verbatim>\<open>NaN\<close> is false.
\<close>

definition cache_fresh :: "host \<Rightarrow> int \<Rightarrow> jsval \<Rightarrow> bool" where
  "cache_fresh h now timestamp =
     (case to_number h timestamp of None \<Rightarrow> False | Some ts \<Rightarrow> now - ts < 24 * 60 * 60 * 1000)"

text \<open>
  \<^verbatim>\<open>loadFromCache(lang)\<close> at the time \<open>now\<close>: the value returned and the storage
  after the read. Whatever the \<^verbatim>\<open>try\<close> block throws is caught, and the function
  returns \<^verbatim>\<open>null\<close>.
\<close>

definition loadFromCache :: "host \<Rightarrow> int \<Rightarrow> storage \<Rightarrow> string \<Rightarrow> (error + jsval) \<times> storage" where
  "loadFromCache h now st lang =
     (case getItem st (cache_key lang) of
        (cached, st') \<Rightarrow>
          (try_catch
             (case cached of
                None \<Rightarrow> Inr JNull
              | Some text \<Rightarrow>
                  if text = [] then Inr JNull
                  else (case JSON_parse h text of
                          None \<Rightarrow> Inl SyntaxError
                        | Some data \<Rightarrow>
                            and_then (read_prop h data ''timestamp'') (\<lambda>timestamp.
                              if cache_fresh h now timestamp then read_prop h data ''translations''
                              else Inr JNull)))
             (\<lambda>error. Inr JNull),
           st'))"

text \<open>The own properties that a spread copies.\<close>

definition own_entries :: "host \<Rightarrow> jsval \<Rightarrow> (string \<times> jsval) list" where
  "own_entries h v =
     (case v of JObj fs \<Rightarrow> fs | JUndefined \<Rightarrow> [] | JNull \<Rightarrow> [] | _ \<Rightarrow> entries h v)"

text \<open>\<^verbatim>\<open>{ ...a, ...b }\<close>: the properties of \<open>a\<close>, overridden and followed by those of \<open>b\<close>.\<close>

definition spread :: "host \<Rightarrow> jsval \<Rightarrow> jsval \<Rightarrow> jsval" where
  "spread h a b = JObj (AList.merge (own_entries h a) (own_entries h b))"

text \<open>
  The \<^verbatim>\<open>try\<close> block of \<^verbatim>\<open>loadTranslations\<close> for one language; \<open>net\<close> is what
  \<^verbatim>\<open>fetch\<close> gives for a URL.
\<close>

definition fetch_dictionary :: "host \<Rightarrow> (string \<Rightarrow> error + response) \<Rightarrow> string \<Rightarrow> error + jsval" where
  "fetch_dictionary h net lang =
     and_then (net (''assets/i18n/'' @ lang @ ''.json'')) (\<lambda>response.
       if \<not> ok response then Inl (HttpError (status response))
       else response_json h response)"

text \<open>\<^verbatim>\<open>this.translations[lang] = dict\<close>\<close>

definition set_dictionary :: "i18n \<Rightarrow> string \<Rightarrow> jsval \<Rightarrow> i18n" where
  "set_dictionary s lang dict = s \<lparr> translations_map := AList.update lang dict (translations_map s) \<rparr>"

text \<open>The body of the loop of \<^verbatim>\<open>loadTranslations\<close>, with its \<^verbatim>\<open>catch\<close> block.\<close>

definition load_language ::
  "host \<Rightarrow> int \<Rightarrow> (string \<Rightarrow> error + response) \<Rightarrow> i18n \<times> storage \<Rightarrow> string
     \<Rightarrow> error + i18n \<times> storage" where
  "load_language h now net state lang =
     (case state of
        (s, st) \<Rightarrow>
          (case fetch_dictionary h net lang of
             Inr dict \<Rightarrow> Inr (set_dictionary s lang dict, st)
           | Inl error \<Rightarrow>
               (let s1 = set_dictionary s lang (getFallbackTranslations h lang)
                in case loadFromCache h now st lang of
                     (cached, st') \<Rightarrow>
                       and_then cached (\<lambda>cachedTranslations.
                         if truthy cachedTranslations then
                           Inr (set_dictionary s1 lang
                                  (spread h (get_prop h (JObj (translations_map s1)) lang)
                                     cachedTranslations),
                                st')
                         else Inr (s1, st')))))"

definition loadTranslations ::
  "host \<Rightarrow> int \<Rightarrow> (string \<Rightarrow> error + response) \<Rightarrow> i18n \<times> storage
     \<Rightarrow> error + i18n \<times> storage" where
  "loadTranslations h now net state = reduce (load_language h now net) state [''en'', ''lo'']"




section \<open>Retrying requests (class ErrorHandler)\<close>

text \<open>
  The handler keeps a counter per request in \<^verbatim>\<open>retryAttempts\<close>. The state also
  records what the network and the clock see: how many times the original
  \<^verbatim>\<open>fetch\<close> was called, and the timeouts that were awaited, in milliseconds. The
  requests of the page are taken one after the other.
\<close>

record retry_state =
  retryAttempts :: "string \<rightharpoonup> nat"
  fetch_calls :: nat
  delays :: "nat list"

text \<open>The constructor's constants.\<close>

definition maxRetries :: nat where
  "maxRetries = 3"

definition retryDelay :: nat where
  "retryDelay = 1000"

text \<open>\<^verbatim>\<open>this.retryAttempts.get(retryKey) || 0\<close>\<close>

definition attempts_of :: "retry_state \<Rightarrow> string \<Rightarrow> nat" where
  "attempts_of st retryKey = (case retryAttempts st retryKey of None \<Rightarrow> 0 | Some n \<Rightarrow> n)"

text \<open>
  The \<^verbatim>\<open>try\<close> block: the awaited response, with a response that is not ok thrown
  as an error.
\<close>

definition checked :: "error + response \<Rightarrow> error + response" where
  "checked outcome =
     and_then outcome (\<lambda>response.
       if \<not> ok response then Inl (HttpError (status response)) else Inr response)"

text \<open>
  \<^verbatim>\<open>fetchWithRetry(url, options, originalFetch)\<close>. The original \<^verbatim>\<open>fetch\<close> is
  given by the outcome of each of its calls, numbered from 0; the request by its key
  \<^verbatim>\<open>`${url}-${JSON.stringify(options)}`\<close>.
\<close>

function fetchWithRetry ::
  "(nat \<Rightarrow> error + response) \<Rightarrow> string \<Rightarrow> retry_state \<Rightarrow> (error + response) \<times> retry_state" where
  "fetchWithRetry originalFetch retryKey st =
     (case checked (originalFetch (fetch_calls st)) of
        Inr response \<Rightarrow>
          (Inr response,
           st \<lparr> fetch_calls := fetch_calls st + 1,
                retryAttempts := (retryAttempts st)(retryKey := None) \<rparr>)
      | Inl error \<Rightarrow>
          if attempts_of st retryKey < maxRetries then
            fetchWithRetry originalFetch retryKey
              (st \<lparr> fetch_calls := fetch_calls st + 1,
                    retryAttempts := (retryAttempts st)(retryKey \<mapsto> attempts_of st retryKey + 1),
                    delays := delays st @ [retryDelay * 2 ^ attempts_of st retryKey] \<rparr>)
          else
            (Inl error,
             st \<lparr> fetch_calls := fetch_calls st + 1,
                  retryAttempts := (retryAttempts st)(retryKey := None) \<rparr>))"
  by pat_completeness auto
termination
  by (relation "measure (\<lambda>(originalFetch, retryKey, st). maxRetries - attempts_of st retryKey)")
     (auto simp: attempts_of_def)

text \<open>
  \<^verbatim>\<open>setupNetworkErrorHandling()\<close> replaces \<^verbatim>\<open>window.fetch\<close>: every request of
  the page, for a dictionary or for the projects, goes through \<^verbatim>\<open>fetchWithRetry\<close>.
  The options are given by their JSON text.
\<close>

definition window_fetch ::
  "(nat \<Rightarrow> error + response) \<Rightarrow> string \<Rightarrow> string \<Rightarrow> retry_state \<Rightarrow> (error + response) \<times> retry_state" where
  "window_fetch originalFetch url options st =
     fetchWithRetry originalFetch (url @ ''-'' @ options) st"

section \<open>The projects page (class App)\<close>

text \<open>
  A project record of \<^verbatim>\<open>projects.json\<close>: the required string fields and the optional
  gallery, a list of paths.
\<close>

record project =
  slug :: string
  title :: string
  status :: string
  location :: string
  scope :: string
  year :: string
  cover :: string
  summary_i18n_key :: string
  gallery :: "string list"

text \<open>
  What \<^verbatim>\<open>createProjectCard(project, index)\<close> builds: the card carries the slug and
  the fields of the project in its markup, the index in its \<^verbatim>\<open>--delay\<close>, and the
  translated summary.
\<close>

record project_card =
  card_project :: project
  card_index :: nat
  card_summary :: jsval

definition createProjectCard :: "host \<Rightarrow> i18n \<Rightarrow> project \<Rightarrow> nat \<Rightarrow> error + project_card" where
  "createProjectCard h s project index =
     and_then (t h s (JStr (summary_i18n_key project)) (JStr ''Project description not available''))
       (\<lambda>summary. Inr \<lparr> card_project = project, card_index = index, card_summary = summary \<rparr>)"

text \<open>The children a grid container can have.\<close>

datatype grid_child =
    Loading
  | ErrorMessage string
  | EmptyState jsval
  | ProjectCard project_card

text \<open>
  \<^verbatim>\<open>projects.forEach((project, index) => container.appendChild(...))\<close>: the cards
  appended, and the error that ended the loop, if any.
\<close>

fun append_cards :: "host \<Rightarrow> i18n \<Rightarrow> project list \<Rightarrow> nat \<Rightarrow> grid_child list \<times> error option" where
  "append_cards h s [] index = ([], None)"
| "append_cards h s (project # rest) index =
     (case createProjectCard h s project index of
        Inl e \<Rightarrow> ([], Some e)
      | Inr projectCard \<Rightarrow>
          (case append_cards h s rest (index + 1) of
             (cards, thrown) \<Rightarrow> (ProjectCard projectCard # cards, thrown)))"

text \<open>
  \<^verbatim>\<open>renderProjectGrid(container, projects)\<close> on a container that exists: its new
  children (the container is emptied first), and the error thrown, if any.
\<close>

definition renderProjectGrid :: "host \<Rightarrow> i18n \<Rightarrow> project list \<Rightarrow> grid_child list \<times> error option" where
  "renderProjectGrid h s projects =
     (if length projects = 0 then
        (case t h s (JStr ''projects.empty'') (JStr ''No projects found in this category.'') of
           Inl e \<Rightarrow> ([], Some e)
         | Inr message \<Rightarrow> ([EmptyState message], None))
      else append_cards h s projects 0)"

text \<open>
  The detail section, when the page has one: whether it carries the class
  \<^verbatim>\<open>hidden\<close>, whether it has the dialog attributes, and what was rendered into it
  (the project, its translated summary and the translated labels).
\<close>

record detail_view =
  view_project :: project
  view_summary :: jsval
  view_labels :: "jsval list"

record detail_section =
  hidden :: bool
  dialog :: bool
  content :: "detail_view option"

text \<open>
  The application with the parts of the page it works on. \<^verbatim>\<open>this.projects\<close> is
  \<^verbatim>\<open>null\<close> and \<^verbatim>\<open>this.initialHash\<close> is unset until they are assigned; a grid or
  the detail section is \<open>None\<close> when the page has no such element. A pending
  \<^verbatim>\<open>setTimeout\<close> that shows a detail is kept with its project and whether the call
  is inside a \<^verbatim>\<open>try\<close>.
\<close>

record app =
  projects :: "project list option"
  initialHash :: "string option"
  location_hash :: string
  ongoing_grid :: "grid_child list option"
  completed_grid :: "grid_child list option"
  project_detail :: "detail_section option"
  timers :: "(bool \<times> project) list"

text \<open>The constructor, on a page given by its hash, grids and detail section.\<close>

definition App_new ::
  "string \<Rightarrow> grid_child list option \<Rightarrow> grid_child list option \<Rightarrow> detail_section option \<Rightarrow> app" where
  "App_new hash ongoing completed detail =
     \<lparr> projects = None, initialHash = None, location_hash = hash, ongoing_grid = ongoing,
       completed_grid = completed, project_detail = detail, timers = [] \<rparr>"

text \<open>
  \<^verbatim>\<open>renderProjectTabs()\<close>. Both grids are required; an error of the rendering is
  caught, with the page as it is at that point.
\<close>

definition renderProjectTabs :: "host \<Rightarrow> i18n \<Rightarrow> app \<Rightarrow> app" where
  "renderProjectTabs h s a =
     (if ongoing_grid a = None \<or> completed_grid a = None then a
      else
        (case projects a of
           None \<Rightarrow> a
         | Some all_projects \<Rightarrow>
             (let ongoingProjects = filter (\<lambda>project. status project = ''ongoing'') all_projects;
                  completedProjects = filter (\<lambda>project. status project = ''completed'') all_projects
              in case renderProjectGrid h s ongoingProjects of
                   (children1, Some e) \<Rightarrow> a \<lparr> ongoing_grid := Some children1 \<rparr>
                 | (children1, None) \<Rightarrow>
                     (case renderProjectGrid h s completedProjects of
                        (children2, thrown) \<Rightarrow>
                          a \<lparr> ongoing_grid := Some children1,
                              completed_grid := Some children2 \<rparr>))))"

text \<open>The six labels of the detail markup, in the order the template reads them.\<close>

definition detail_labels :: "host \<Rightarrow> i18n \<Rightarrow> error + jsval list" where
  "detail_labels h s =
     and_then (t h s (JStr ''projects.details.close_details'') (JStr ''Close Details'')) (\<lambda>l1.
     and_then (t h s (JStr ''projects.details.close_details'') (JStr ''Close Details'')) (\<lambda>l2.
     and_then (t h s (JStr ''projects.details.scope'') (JStr ''Project Scope'')) (\<lambda>l3.
     and_then (t h s (JStr ''projects.details.location'') (JStr ''Location'')) (\<lambda>l4.
     and_then (t h s (JStr ''projects.details.year'') (JStr ''Year'')) (\<lambda>l5.
     and_then (t h s (JStr ''projects.details.status'') (JStr ''Status'')) (\<lambda>l6.
       Inr [l1, l2, l3, l4, l5, l6]))))))"

text \<open>
  \<^verbatim>\<open>showProjectDetail(project)\<close>: without a detail section nothing happens;
  otherwise the hash becomes the slug, the section is filled, shown and made a dialog.
  The result is the page and the error thrown, if any. Focus, scrolling, key handlers
  and structured data are not part of the page as modelled here.
\<close>

definition showProjectDetail :: "host \<Rightarrow> i18n \<Rightarrow> app \<Rightarrow> project \<Rightarrow> app \<times> error option" where
  "showProjectDetail h s a project =
     (case project_detail a of
        None \<Rightarrow> (a, None)
      | Some detailSection \<Rightarrow>
          (let a1 = a \<lparr> location_hash := ''#'' @ slug project \<rparr>
           in case and_then
                     (t h s (JStr (summary_i18n_key project))
                        (JStr ''Project description not available''))
                     (\<lambda>summary. and_then (detail_labels h s) (\<lambda>labels.
                        Inr \<lparr> view_project = project, view_summary = summary,
                              view_labels = labels \<rparr>)) of
                Inl e \<Rightarrow> (a1, Some e)
              | Inr view \<Rightarrow>
                  (a1 \<lparr> project_detail :=
                          Some (detailSection \<lparr> content := Some view, hidden := False,
                                  dialog := True \<rparr>) \<rparr>,
                   None)))"

text \<open>\<^verbatim>\<open>hideProjectDetail()\<close>: the section is hidden and the hash cleared.\<close>

definition hideProjectDetail :: "app \<Rightarrow> app" where
  "hideProjectDetail a =
     (case project_detail a of
        None \<Rightarrow> a
      | Some detailSection \<Rightarrow>
          a \<lparr> project_detail := Some (detailSection \<lparr> hidden := True, dialog := False \<rparr>),
              location_hash := [] \<rparr>)"

text \<open>\<^verbatim>\<open>this.projects.find(p => p.slug === hash)\<close>\<close>

definition find_by_slug :: "project list \<Rightarrow> string \<Rightarrow> project option" where
  "find_by_slug ps hash = find (\<lambda>p. slug p = hash) ps"

text \<open>
  \<^verbatim>\<open>setupProjectDeepLinking()\<close>, up to the registration of the listener:
  \<^verbatim>\<open>substring(1)\<close> drops the \<^verbatim>\<open>#\<close>; an empty string is falsy.
\<close>

definition setupProjectDeepLinking :: "app \<Rightarrow> app" where
  "setupProjectDeepLinking a =
     (let a1 = a \<lparr> initialHash := Some (drop 1 (location_hash a)) \<rparr>
      in case (initialHash a1, projects a1) of
           (Some hash, Some ps) \<Rightarrow>
             (if hash \<noteq> [] then
                (case find_by_slug ps hash of
                   Some project \<Rightarrow> a1 \<lparr> timers := timers a1 @ [(False, project)] \<rparr>
                 | None \<Rightarrow> a1)
              else a1)
         | _ \<Rightarrow> a1)"

text \<open>The listener for \<^verbatim>\<open>hashchange\<close>, with the page and the error thrown, if any.\<close>

definition on_hashchange :: "host \<Rightarrow> i18n \<Rightarrow> app \<Rightarrow> app \<times> error option" where
  "on_hashchange h s a =
     (let newHash = drop 1 (location_hash a)
      in if newHash = [] then (hideProjectDetail a, None)
         else (case projects a of
                 None \<Rightarrow> (a, None)
               | Some ps \<Rightarrow>
                   (case find_by_slug ps newHash of
                      Some project \<Rightarrow> showProjectDetail h s a project
                    | None \<Rightarrow> (a, None))))"

text \<open>\<^verbatim>\<open>showProjectsLoading()\<close> and \<^verbatim>\<open>showProjectsError(message)\<close>\<close>

definition fill_grids :: "grid_child \<Rightarrow> app \<Rightarrow> app" where
  "fill_grids child a =
     a \<lparr> ongoing_grid := map_option (\<lambda>children. [child]) (ongoing_grid a),
         completed_grid := map_option (\<lambda>children. [child]) (completed_grid a) \<rparr>"

text \<open>\<^verbatim>\<open>loadProjects()\<close> up to its first \<^verbatim>\<open>await\<close>, the request.\<close>

definition loadProjects_request :: "app \<Rightarrow> app" where
  "loadProjects_request a = fill_grids Loading a"

text \<open>
  The rest of the \<^verbatim>\<open>try\<close> block of \<^verbatim>\<open>loadProjects()\<close>, once the request has
  settled with \<open>outcome\<close>. The function \<open>decode\<close> stands for \<^verbatim>\<open>response.json()\<close>
  followed by the read of \<^verbatim>\<open>data.projects\<close>: an error when the text is not JSON,
  \<open>None\<close> when the data has no projects.
\<close>

definition loadProjects_loaded ::
  "host \<Rightarrow> i18n \<Rightarrow> (string \<Rightarrow> error + project list option) \<Rightarrow> error + response \<Rightarrow> app
     \<Rightarrow> error + app" where
  "loadProjects_loaded h s decode outcome a =
     and_then outcome (\<lambda>response.
       if \<not> ok response then Inl (HttpError (response.status response))
       else and_then (decode (body response)) (\<lambda>data_projects.
         let a1 = a \<lparr> projects := Some (case data_projects of None \<Rightarrow> [] | Some ps \<Rightarrow> ps) \<rparr>;
             a2 = renderProjectTabs h s a1
         in case (initialHash a2, projects a2) of
              (Some hash, Some ps) \<Rightarrow>
                (if hash \<noteq> [] then
                   (case find_by_slug ps hash of
                      Some project \<Rightarrow> Inr (a2 \<lparr> timers := timers a2 @ [(True, project)] \<rparr>)
                    | None \<Rightarrow> Inr a2)
                 else Inr a2)
            | _ \<Rightarrow> Inr a2))"

text \<open>The continuation of \<^verbatim>\<open>loadProjects()\<close> with its \<^verbatim>\<open>catch\<close> block.\<close>

definition loadProjects_settled ::
  "host \<Rightarrow> i18n \<Rightarrow> (string \<Rightarrow> error + project list option) \<Rightarrow> error + response \<Rightarrow> app \<Rightarrow> app" where
  "loadProjects_settled h s decode outcome a =
     (case loadProjects_loaded h s decode outcome a of
        Inr a' \<Rightarrow> a'
      | Inl error \<Rightarrow>
          fill_grids (ErrorMessage ''Failed to load projects. Please try again.'')
            (a \<lparr> projects := Some [] \<rparr>))"

text \<open>
  A timeout fires: the call of \<^verbatim>\<open>showProjectDetail\<close>, whose error is caught when
  the call is inside a \<^verbatim>\<open>try\<close> and is left uncaught otherwise.
\<close>

definition fire :: "host \<Rightarrow> i18n \<Rightarrow> app \<times> error list \<Rightarrow> bool \<times> project \<Rightarrow> app \<times> error list" where
  "fire h s state timer =
     (case (state, timer) of
        ((a, uncaught), (guarded, project)) \<Rightarrow>
          (case showProjectDetail h s a project of
             (a', None) \<Rightarrow> (a', uncaught)
           | (a', Some e) \<Rightarrow> (a', if guarded then uncaught else uncaught @ [e])))"

definition run_timers :: "host \<Rightarrow> i18n \<Rightarrow> app \<Rightarrow> app \<times> error list" where
  "run_timers h s a = foldl (fire h s) (a \<lparr> timers := [] \<rparr>, []) (timers a)"

text \<open>
  Loading the projects page: \<^verbatim>\<open>initProjectsPage()\<close> sends the request and sets up
  the deep linking before the request can settle; then the request settles; then the
  timeouts fire. The result is the page and the errors left uncaught.
\<close>

definition initProjectsPage :: "app \<Rightarrow> app" where
  "initProjectsPage a = setupProjectDeepLinking (loadProjects_request a)"

definition projects_page_load ::
  "host \<Rightarrow> i18n \<Rightarrow> (string \<Rightarrow> error + project list option) \<Rightarrow> error + response \<Rightarrow> app
     \<Rightarrow> app \<times> error list" where
  "projects_page_load h s decode outcome a =
     run_timers h s (loadProjects_settled h s decode outcome (initProjectsPage a))"

text \<open>The projects whose cards a grid holds, in the order of the cards.\<close>

fun cards_of :: "grid_child list \<Rightarrow> project_card list" where
  "cards_of [] = []"
| "cards_of (ProjectCard projectCard # rest) = projectCard # cards_of rest"
| "cards_of (child # rest) = cards_of rest"

text \<open>For the concrete examples: the two records of the specification's scenario.\<close>

definition bridge_a :: project where
  "bridge_a = \<lparr> slug = ''bridge-a'', title = ''Bridge A'', status = ''ongoing'',
                location = ''Vientiane'', scope = ''Design review'', year = ''2024'',
                cover = ''assets/img/bridge-a.jpg'',
                summary_i18n_key = ''projects.bridge_a.summary'', gallery = [] \<rparr>"

definition road_b :: project where
  "road_b = \<lparr> slug = ''road-b'', title = ''Road B'', status = ''completed'',
              location = ''Luang Prabang'', scope = ''Supervision'', year = ''2022'',
              cover = ''assets/img/road-b.jpg'',
              summary_i18n_key = ''projects.road_b.summary'', gallery = [] \<rparr>"

section \<open>Properties of the translation store\<close>

lemma split_on_not_Nil: "split_on sep s \<noteq> []"
  by (induction s) (auto split: list.splits)

lemma nested_step_total: "\<exists>v. nested_step h current key = Inr v"
  by (cases current) (simp_all add: nested_step_def read_prop_def)

lemma reduce_nested_step_total: "\<exists>v. reduce (nested_step h) obj parts = Inr v"
proof (induction parts arbitrary: obj)
  case Nil
  show ?case by simp
next
  case (Cons k ks)
  obtain v where "nested_step h obj k = Inr v"
    using nested_step_total by blast
  with Cons show ?case by simp
qed

lemma getNestedValue_total: "\<exists>v. getNestedValue h obj path = Inr v"
proof (cases "split_method path")
  case (Inl e)
  then show ?thesis by (simp add: getNestedValue_def try_catch_def)
next
  case (Inr parts)
  obtain v where "reduce (nested_step h) obj parts = Inr v"
    using reduce_nested_step_total by blast
  with Inr show ?thesis by (simp add: getNestedValue_def try_catch_def)
qed

lemma translation_in_total: "\<exists>v. translation_in h s lang key = Inr v"
  unfolding translation_in_def by (rule getNestedValue_total)

lemma handleMissingKey_string:
  "handleMissingKey (JStr key) fallback =
     Inr (if fallback = JStr ''[MISSING]''
          then JStr (''[MISSING: ''
                     @ capitalize_words False (replace_separators (last (split_on (CHR ''.'') key)))
                     @ '']'')
          else fallback)"
  by (simp add: handleMissingKey_def)

lemma t_body_cases:
  assumes "translation_in h s (currentLang s) key = Inr a"
    and "translation_in h s (fallbackLang s) key = Inr b"
  shows "t_body h s key fallback =
     (if usable a then Inr a
      else if usable b then Inr b
      else handleMissingKey key fallback)"
  using assms by (auto simp: t_body_def)

lemma t_cases:
  assumes "translation_in h s (currentLang s) (JStr key) = Inr a"
    and "translation_in h s (fallbackLang s) (JStr key) = Inr b"
  shows "t h s (JStr key) fb =
     (if usable a then Inr a
      else if usable b then Inr b
      else handleMissingKey (JStr key) (if fb = JUndefined then JStr ''[MISSING]'' else fb))"
  using assms by (simp add: t_def Let_def t_body_cases try_catch_def handleMissingKey_string)

text \<open>A key that is no string makes the default placeholder throw, out of the catch block too.\<close>

lemma t_undefined_key_throws: "t h s JUndefined JUndefined = Inl TypeError"
proof -
  have "translation_in h s lang JUndefined = Inr JUndefined" for lang
    by (simp add: translation_in_def getNestedValue_def)
  then have "t_body h s JUndefined (JStr ''[MISSING]'') = Inl TypeError"
    by (simp add: t_body_def usable_def handleMissingKey_def)
  then show ?thesis
    by (simp add: t_def try_catch_def handleMissingKey_def)
qed

lemma evaluate_lookup:
  "translation_in h s lang (JStr (c # cs)) =
     (if truthy (get_prop h (JObj (translations_map s)) lang)
      then reduce (nested_step h) (get_prop h (JObj (translations_map s)) lang)
             (split_on (CHR ''.'') (c # cs))
      else Inr JUndefined)"
proof -
  obtain v where "reduce (nested_step h) (get_prop h (JObj (translations_map s)) lang)
      (split_on (CHR ''.'') (c # cs)) = Inr v"
    using reduce_nested_step_total by blast
  then show ?thesis
    by (simp add: translation_in_def getNestedValue_def try_catch_def)
qed

lemmas evaluate_text =
  replace_separators_def word_char_def toUpperCase_def lower_chars_def upper_chars_def

text \<open>
  C1. The placeholder for a key without a usable value is built from the last segment of
  the key with underscores (and hyphens) turned into spaces and every word capitalised,
  behind the marker \<^verbatim>\<open>[MISSING: \<close>. The boundary inside a camelCase segment is
  not a word boundary for \<^verbatim>\<open>handleMissingKey\<close>: for the key \<^verbatim>\<open>hero.ctaButton\<close>,
  present in the en dictionary with an empty value, \<^verbatim>\<open>t\<close> returns
  \<^verbatim>\<open>[MISSING: CtaButton]\<close>, whereas the conversion of snake_case and camelCase to
  Title Case, as \<^verbatim>\<open>generateFallbackText\<close> does it on the same key, gives
  \<^verbatim>\<open>Cta Button\<close>.
\<close>

theorem t_placeholder_leaves_camelCase:
  "t h (I18n_new \<lparr> translations_map :=
          [(''en'', JObj [(''hero'', JObj [(''ctaButton'', JStr '''')])])] \<rparr>)
     (JStr ''hero.ctaButton'') JUndefined = Inr (JStr ''[MISSING: CtaButton]'')
   \<and> generateFallbackText ''hero.ctaButton'' = ''Cta Button''"
  by (simp add: I18n_new_def t_def t_body_def evaluate_lookup nested_step_def read_prop_def
      usable_def try_catch_def handleMissingKey_def generateFallbackText_def Let_def
      evaluate_text)

text \<open>
  C5. With the en dictionary \<^verbatim>\<open>{"nav":{"home":"Home"}}\<close> and the lo dictionary
  \<^verbatim>\<open>{"nav":{"home":""}}\<close>, resolving \<^verbatim>\<open>nav.home\<close> while the active language is lo
  returns \<^verbatim>\<open>Home\<close>, the value of the default language, not the empty string.
\<close>

theorem t_empty_value_falls_back_to_default:
  "t h (I18n_new \<lparr> currentLang := ''lo'',
          translations_map :=
            [(''en'', JObj [(''nav'', JObj [(''home'', JStr ''Home'')])]),
             (''lo'', JObj [(''nav'', JObj [(''home'', JStr '''')])])] \<rparr>)
     (JStr ''nav.home'') JUndefined = Inr (JStr ''Home'')"
  by (simp add: I18n_new_def t_def t_body_def evaluate_lookup nested_step_def read_prop_def
      usable_def try_catch_def)

text \<open>
  C7. For every key string and every state of the dictionaries (a dictionary may be
  absent, \<^verbatim>\<open>null\<close> or lack segments of the path), \<^verbatim>\<open>getNestedValue\<close> returns a
  value (possibly \<^verbatim>\<open>undefined\<close>) and \<^verbatim>\<open>t\<close> returns a value: neither raises. When
  the lookup finds no usable value in the active and in the default language, and the
  fallback argument is absent or a string, what \<^verbatim>\<open>t\<close> returns is a string.
\<close>

theorem t_never_throws:
  "(\<exists>v. getNestedValue h obj path = Inr v) \<and>
   (\<exists>v. t h s (JStr key) fb = Inr v) \<and>
   ((fb = JUndefined \<or> fb = JStr f) \<and>
    translation_in h s (currentLang s) (JStr key) = Inr a \<and> \<not> usable a \<and>
    translation_in h s (fallbackLang s) (JStr key) = Inr b \<and> \<not> usable b
    \<longrightarrow> (\<exists>text. t h s (JStr key) fb = Inr (JStr text)))"
proof -
  obtain a' where a': "translation_in h s (currentLang s) (JStr key) = Inr a'"
    using translation_in_total by blast
  obtain b' where b': "translation_in h s (fallbackLang s) (JStr key) = Inr b'"
    using translation_in_total by blast
  have 1: "\<exists>v. getNestedValue h obj path = Inr v"
    by (rule getNestedValue_total)
  have 2: "\<exists>v. t h s (JStr key) fb = Inr v"
    by (simp add: t_cases [OF a' b'] handleMissingKey_string)
  have 3: "(fb = JUndefined \<or> fb = JStr f) \<and>
    translation_in h s (currentLang s) (JStr key) = Inr a \<and> \<not> usable a \<and>
    translation_in h s (fallbackLang s) (JStr key) = Inr b \<and> \<not> usable b
    \<longrightarrow> (\<exists>text. t h s (JStr key) fb = Inr (JStr text))"
    by (auto simp: t_cases handleMissingKey_string)
  from 1 2 3 show ?thesis by blast
qed

text \<open>
  The instance: the lo dictionary is \<^verbatim>\<open>null\<close>, the en dictionary has no
  \<^verbatim>\<open>nav.home\<close>; the lookup of \<^verbatim>\<open>nav.home\<close> in lo gives the placeholder.
\<close>

theorem t_never_throws_witness:
  "translation_in plain_host
     (I18n_new \<lparr> currentLang := ''lo'', translations_map := [(''en'', JObj []), (''lo'', JNull)] \<rparr>)
     ''lo'' (JStr ''nav.home'') = Inr JUndefined
   \<and> translation_in plain_host
     (I18n_new \<lparr> currentLang := ''lo'', translations_map := [(''en'', JObj []), (''lo'', JNull)] \<rparr>)
     ''en'' (JStr ''nav.home'') = Inr JUndefined
   \<and> \<not> usable JUndefined
   \<and> t plain_host
     (I18n_new \<lparr> currentLang := ''lo'', translations_map := [(''en'', JObj []), (''lo'', JNull)] \<rparr>)
     (JStr ''nav.home'') JUndefined = Inr (JStr ''[MISSING: Home]'')"
proof -
  let ?s = "I18n_new \<lparr> currentLang := ''lo'', translations_map := [(''en'', JObj []), (''lo'', JNull)] \<rparr>"
  have lo: "translation_in plain_host ?s ''lo'' (JStr ''nav.home'') = Inr JUndefined"
    by (simp add: evaluate_lookup)
  have en: "translation_in plain_host ?s ''en'' (JStr ''nav.home'') = Inr JUndefined"
    by (simp add: evaluate_lookup nested_step_def read_prop_def plain_host_def)
  have u: "\<not> usable JUndefined"
    by (simp add: usable_def)
  have "\<exists>text. t plain_host ?s (JStr ''nav.home'') JUndefined = Inr (JStr text)"
    using t_never_throws [of plain_host JNull JNull ?s "''nav.home''" JUndefined "[]"
        JUndefined JUndefined] lo en u
    by (simp add: I18n_new_def)
  moreover have "t plain_host ?s (JStr ''nav.home'') JUndefined = Inr (JStr ''[MISSING: Home]'')"
    using lo en
    by (simp add: t_def t_body_def I18n_new_def usable_def try_catch_def handleMissingKey_def
        evaluate_text)
  ultimately show ?thesis using lo en u by simp
qed

text \<open>
  C10. When \<^verbatim>\<open>t(key, fallback)\<close> is called with a fallback other than the default
  \<^verbatim>\<open>[MISSING]\<close> and the key has no usable value in the active nor in the default
  language, the call returns the fallback as it was given: no marker and no
  transformation of the key.
\<close>

theorem t_explicit_fallback_verbatim:
  assumes "fb \<noteq> JUndefined" and "fb \<noteq> JStr ''[MISSING]''"
    and "translation_in h s (currentLang s) key = Inr a" and "\<not> usable a"
    and "translation_in h s (fallbackLang s) key = Inr b" and "\<not> usable b"
  shows "t h s key fb = Inr fb"
  using assms by (simp add: t_def t_body_cases try_catch_def handleMissingKey_def)

theorem t_explicit_fallback_verbatim_witness:
  "JStr ''No projects found in this category.'' \<noteq> JUndefined
   \<and> JStr ''No projects found in this category.'' \<noteq> JStr ''[MISSING]''
   \<and> translation_in plain_host
        (I18n_new \<lparr> currentLang := ''lo'',
           translations_map := [(''en'', JObj [(''projects'', JObj [(''empty'', JStr '''')])])] \<rparr>)
        ''lo'' (JStr ''projects.empty'') = Inr JUndefined
   \<and> translation_in plain_host
        (I18n_new \<lparr> currentLang := ''lo'',
           translations_map := [(''en'', JObj [(''projects'', JObj [(''empty'', JStr '''')])])] \<rparr>)
        ''en'' (JStr ''projects.empty'') = Inr (JStr '''')
   \<and> \<not> usable JUndefined \<and> \<not> usable (JStr '''')
   \<and> t plain_host
        (I18n_new \<lparr> currentLang := ''lo'',
           translations_map := [(''en'', JObj [(''projects'', JObj [(''empty'', JStr '''')])])] \<rparr>)
        (JStr ''projects.empty'') (JStr ''No projects found in this category.'')
       = Inr (JStr ''No projects found in this category.'')"
proof -
  let ?s = "I18n_new \<lparr> currentLang := ''lo'',
           translations_map := [(''en'', JObj [(''projects'', JObj [(''empty'', JStr '''')])])] \<rparr>"
  let ?fb = "JStr ''No projects found in this category.''"
  have f: "?fb \<noteq> JUndefined" "?fb \<noteq> JStr ''[MISSING]''"
    by simp_all
  have lo: "translation_in plain_host ?s (currentLang ?s) (JStr ''projects.empty'') = Inr JUndefined"
    by (simp add: evaluate_lookup plain_host_def)
  have en: "translation_in plain_host ?s (fallbackLang ?s) (JStr ''projects.empty'') = Inr (JStr '''')"
    by (simp add: evaluate_lookup nested_step_def read_prop_def I18n_new_def)
  have u: "\<not> usable JUndefined" "\<not> usable (JStr '''')"
    by (simp_all add: usable_def)
  have "t plain_host ?s (JStr ''projects.empty'') ?fb = Inr ?fb"
    by (rule t_explicit_fallback_verbatim [OF f lo u(1) en u(2)])
  with f lo en u show ?thesis
    by (simp add: I18n_new_def)
qed

section \<open>Properties of the binder and of the language switch\<close>

lemma t_string_total: "\<exists>v. t h s (JStr key) fb = Inr v"
proof -
  obtain a where a: "translation_in h s (currentLang s) (JStr key) = Inr a"
    using translation_in_total by blast
  obtain b where b: "translation_in h s (fallbackLang s) (JStr key) = Inr b"
    using translation_in_total by blast
  show ?thesis
    by (simp add: t_cases [OF a b] handleMissingKey_string)
qed

lemma hasAttribute_setAttribute:
  "hasAttribute (setAttribute e name v) k = (k = name \<or> hasAttribute e k)"
  by (auto simp: hasAttribute_def setAttribute_def update_conv')


lemma textContent_setAttribute: "textContent (setAttribute e name v) = textContent e"
  by (simp add: setAttribute_def)


lemma translate_element_result:
  "\<exists>e'. translate_element h s e = Inr e' \<and> text_binding e' = text_binding e \<and>
     textContent e' =
       (case text_binding e of
          Some key \<Rightarrow> textContent_of h (projr (t h s (JStr key) JUndefined))
        | None \<Rightarrow> textContent e)"
proof (cases "getAttribute e ''data-i18n''")
  case None
  then show ?thesis
    by (simp add: translate_element_def text_binding_def)
next
  case key: (Some key)
  obtain v where v: "t h s (JStr key) JUndefined = Inr v"
    using t_string_total by blast
  show ?thesis
  proof (cases "getAttribute e ''data-i18n-attr''")
    case None
    with key v show ?thesis
      by (simp add: translate_element_def and_then_def text_binding_def hasAttribute_def
          getAttribute_def)
  next
    case (Some attr)
    then have "hasAttribute e ''data-i18n-attr''"
      by (simp add: hasAttribute_def getAttribute_def)
    with Some key v show ?thesis
      by (simp add: translate_element_def and_then_def text_binding_def
          hasAttribute_setAttribute textContent_setAttribute)
  qed
qed

lemma applyTranslations_result:
  "\<exists>els'. applyTranslations h s els = Inr els' \<and>
     map text_binding els' = map text_binding els \<and>
     map textContent els' =
       map (\<lambda>e. case text_binding e of
                   Some key \<Rightarrow> textContent_of h (projr (t h s (JStr key) JUndefined))
                 | None \<Rightarrow> textContent e) els"
proof (induction els)
  case Nil
  show ?case by (simp add: applyTranslations_def)
next
  case (Cons e els)
  obtain e' where e': "translate_element h s e = Inr e'" "text_binding e' = text_binding e"
      "textContent e' = (case text_binding e of
          Some key \<Rightarrow> textContent_of h (projr (t h s (JStr key) JUndefined))
        | None \<Rightarrow> textContent e)"
    using translate_element_result by blast
  from Cons obtain els' where els': "forEach (translate_element h s) els = Inr els'"
      "map text_binding els' = map text_binding els"
      "map textContent els' =
       map (\<lambda>e. case text_binding e of
                   Some key \<Rightarrow> textContent_of h (projr (t h s (JStr key) JUndefined))
                 | None \<Rightarrow> textContent e) els"
    unfolding applyTranslations_def by blast
  have "applyTranslations h s (e # els) = Inr (e' # els')"
    using e'(1) els'(1) by (simp add: applyTranslations_def and_then_def)
  with e'(2,3) els'(2,3) show ?case by simp
qed




lemma and_then_Inr: "and_then (Inr v) f = f v"
  by (simp add: and_then_def)





lemma rebind_texts:
  assumes "map text_binding xs = map text_binding ys"
    and "map textContent xs =
         map (\<lambda>e. case text_binding e of Some key \<Rightarrow> G key | None \<Rightarrow> textContent e) ys"
  shows "map (\<lambda>e. case text_binding e of Some key \<Rightarrow> F key | None \<Rightarrow> textContent e) xs =
         map (\<lambda>e. case text_binding e of Some key \<Rightarrow> F key | None \<Rightarrow> textContent e) ys"
  using assms
proof (induction xs arbitrary: ys)
  case Nil
  then show ?case by simp
next
  case (Cons x xs)
  then obtain y ys' where ys: "ys = y # ys'"
    by (cases ys) auto
  with Cons.prems have "text_binding x = text_binding y"
    and "textContent x = (case text_binding y of Some key \<Rightarrow> G key | None \<Rightarrow> textContent y)"
    and "map text_binding xs = map text_binding ys'"
    and "map textContent xs =
         map (\<lambda>e. case text_binding e of Some key \<Rightarrow> G key | None \<Rightarrow> textContent e) ys'"
    by simp_all
  with Cons.IH [of ys'] ys show ?case
    by (simp split: option.splits)
qed

lemma binder_output_is_stable:
  assumes "applyTranslations h s els = Inr els'"
  shows "\<exists>els''. applyTranslations h s els' = Inr els'' \<and>
           map textContent els'' = map textContent els'"
proof -
  let ?G = "\<lambda>e. case text_binding e of
                 Some key \<Rightarrow> textContent_of h (projr (t h s (JStr key) JUndefined))
               | None \<Rightarrow> textContent e"
  have 1: "map text_binding els' = map text_binding els" "map textContent els' = map ?G els"
    using applyTranslations_result [of h s els] assms by auto
  obtain els'' where 2: "applyTranslations h s els' = Inr els''"
    "map textContent els'' = map ?G els'"
    using applyTranslations_result [of h s els'] by auto
  have "map ?G els' = map ?G els"
    using 1 by (rule rebind_texts)
  with 1(2) 2 show ?thesis
    by simp
qed






section \<open>Properties of loading the dictionaries\<close>



lemma loadFromCache_result:
  "\<exists>cached. loadFromCache h now st lang = (Inr cached, st \<lparr> reads := reads st @ [cache_key lang] \<rparr>) \<and>
     (truthy cached \<longrightarrow>
        (\<exists>text data timestamp ts.
           items st (cache_key lang) = Some text \<and> JSON_parse h text = Some data \<and>
           read_prop h data ''timestamp'' = Inr timestamp \<and>
           to_number h timestamp = Some ts \<and> now - ts < 24 * 60 * 60 * 1000 \<and>
           read_prop h data ''translations'' = Inr cached))"
proof (cases "items st (cache_key lang)")
  case None
  then show ?thesis
    by (simp add: loadFromCache_def getItem_def try_catch_def)
next
  case item: (Some raw)
  show ?thesis
  proof (cases "raw = []")
    case True
    with item show ?thesis
      by (simp add: loadFromCache_def getItem_def try_catch_def)
  next
    case nonempty: False
    show ?thesis
    proof (cases "JSON_parse h raw")
      case None
      with item nonempty show ?thesis
        by (simp add: loadFromCache_def getItem_def try_catch_def)
    next
      case data: (Some data)
      show ?thesis
      proof (cases "read_prop h data ''timestamp''")
        case (Inl e)
        with item nonempty data show ?thesis
          by (simp add: loadFromCache_def getItem_def try_catch_def and_then_def)
      next
        case ts: (Inr timestamp)
        show ?thesis
        proof (cases "cache_fresh h now timestamp")
          case False
          with item nonempty data ts show ?thesis
            by (simp add: loadFromCache_def getItem_def try_catch_def and_then_def)
        next
          case True
          then obtain n where n: "to_number h timestamp = Some n" "now - n < 24 * 60 * 60 * 1000"
            by (auto simp: cache_fresh_def split: option.splits)
          show ?thesis
          proof (cases "read_prop h data ''translations''")
            case (Inl e)
            with item nonempty data ts True show ?thesis
              by (simp add: loadFromCache_def getItem_def try_catch_def and_then_def)
          next
            case (Inr cached)
            with item nonempty data ts True n show ?thesis
              by (simp add: loadFromCache_def getItem_def try_catch_def and_then_def)
          qed
        qed
      qed
    qed
  qed
qed

lemma load_language_reads:
  "\<exists>s' st'. load_language h now net (s, st) lang = Inr (s', st') \<and>
     reads st' = reads st @ (if isl (fetch_dictionary h net lang) then [cache_key lang] else [])"
proof (cases "fetch_dictionary h net lang")
  case (Inl err)
  obtain cached where "loadFromCache h now st lang = (Inr cached, st \<lparr> reads := reads st @ [cache_key lang] \<rparr>)"
    using loadFromCache_result by blast
  with Inl show ?thesis
    by (simp add: load_language_def Let_def and_then_def)
next
  case (Inr dict)
  then show ?thesis by (simp add: load_language_def)
qed

lemma loadTranslations_reads:
  "\<exists>s' st'. loadTranslations h now net (s, st) = Inr (s', st') \<and>
     reads st' = reads st @ map cache_key (filter (\<lambda>lang. isl (fetch_dictionary h net lang)) [''en'', ''lo''])"
proof -
  obtain s1 st1 where 1: "load_language h now net (s, st) ''en'' = Inr (s1, st1)"
    "reads st1 = reads st @ (if isl (fetch_dictionary h net ''en'') then [cache_key ''en''] else [])"
    using load_language_reads by blast
  obtain s2 st2 where 2: "load_language h now net (s1, st1) ''lo'' = Inr (s2, st2)"
    "reads st2 = reads st1 @ (if isl (fetch_dictionary h net ''lo'') then [cache_key ''lo''] else [])"
    using load_language_reads by blast
  have "loadTranslations h now net (s, st) = Inr (s2, st2)"
    by (simp add: loadTranslations_def 1(1) 2(1))
  with 1(2) 2(2) show ?thesis by simp
qed



section \<open>Properties of the retry policy\<close>

lemma fetchWithRetry_run:
  "attempts_of st k \<le> maxRetries \<Longrightarrow>
   \<exists>n. attempts_of st k + n \<le> maxRetries \<and>
     fetchWithRetry f k st =
       (checked (f (fetch_calls st + n)),
        st \<lparr> fetch_calls := fetch_calls st + n + 1,
             retryAttempts := (retryAttempts st)(k := None),
             delays := delays st @ map (\<lambda>i. retryDelay * 2 ^ i)
                         [attempts_of st k ..< attempts_of st k + n] \<rparr>) \<and>
     (\<forall>i<n. isl (checked (f (fetch_calls st + i)))) \<and>
     (isl (checked (f (fetch_calls st + n))) \<longrightarrow> attempts_of st k + n = maxRetries)"
proof (induction f k st rule: fetchWithRetry.induct)
  case (1 f k st)
  let ?a = "attempts_of st k"
  show ?case
  proof (cases "checked (f (fetch_calls st))")
    case (Inr response)
    then have "fetchWithRetry f k st =
       (checked (f (fetch_calls st + 0)),
        st \<lparr> fetch_calls := fetch_calls st + 0 + 1,
             retryAttempts := (retryAttempts st)(k := None),
             delays := delays st @ map (\<lambda>i. retryDelay * 2 ^ i) [?a ..< ?a + 0] \<rparr>)"
      by simp
    moreover have "isl (checked (f (fetch_calls st + 0))) \<longrightarrow> ?a + 0 = maxRetries"
      using Inr by simp
    moreover have "?a + 0 \<le> maxRetries"
      using "1.prems" by simp
    moreover have "\<forall>i<0::nat. isl (checked (f (fetch_calls st + i)))"
      by simp
    ultimately show ?thesis
      by blast
  next
    case (Inl err)
    show ?thesis
    proof (cases "?a < maxRetries")
      case False
      with Inl have "fetchWithRetry f k st =
       (checked (f (fetch_calls st + 0)),
        st \<lparr> fetch_calls := fetch_calls st + 0 + 1,
             retryAttempts := (retryAttempts st)(k := None),
             delays := delays st @ map (\<lambda>i. retryDelay * 2 ^ i) [?a ..< ?a + 0] \<rparr>)"
        by simp
      moreover have "isl (checked (f (fetch_calls st + 0))) \<longrightarrow> ?a + 0 = maxRetries"
        using False "1.prems" by simp
      moreover have "?a + 0 \<le> maxRetries"
        using "1.prems" by simp
      moreover have "\<forall>i<0::nat. isl (checked (f (fetch_calls st + i)))"
        by simp
      ultimately show ?thesis
        by blast
    next
      case True
      let ?st = "st \<lparr> fetch_calls := fetch_calls st + 1,
                    retryAttempts := (retryAttempts st)(k \<mapsto> ?a + 1),
                    delays := delays st @ [retryDelay * 2 ^ ?a] \<rparr>"
      have a': "attempts_of ?st k = ?a + 1"
        by (simp add: attempts_of_def)
      then have "attempts_of ?st k \<le> maxRetries"
        using True by simp
      from "1.IH" [OF Inl True this]
      obtain n where n: "attempts_of ?st k + n \<le> maxRetries"
        "fetchWithRetry f k ?st =
          (checked (f (fetch_calls ?st + n)),
           ?st \<lparr> fetch_calls := fetch_calls ?st + n + 1,
                 retryAttempts := (retryAttempts ?st)(k := None),
                 delays := delays ?st @ map (\<lambda>i. retryDelay * 2 ^ i)
                         [attempts_of ?st k ..< attempts_of ?st k + n] \<rparr>)"
        "\<forall>i<n. isl (checked (f (fetch_calls ?st + i)))"
        "isl (checked (f (fetch_calls ?st + n))) \<longrightarrow> attempts_of ?st k + n = maxRetries"
        by blast
      have step: "fetchWithRetry f k st = fetchWithRetry f k ?st"
        using Inl True by simp
      have upt: "[?a ..< ?a + Suc n] = ?a # [?a + 1 ..< ?a + 1 + n]"
        by (simp add: upt_conv_Cons)
      have 1: "?a + Suc n \<le> maxRetries"
        using n(1) a' by simp
      have 2: "fetchWithRetry f k st =
       (checked (f (fetch_calls st + Suc n)),
        st \<lparr> fetch_calls := fetch_calls st + Suc n + 1,
             retryAttempts := (retryAttempts st)(k := None),
             delays := delays st @ map (\<lambda>i. retryDelay * 2 ^ i) [?a ..< ?a + Suc n] \<rparr>)"
        unfolding step n(2) a' upt by simp
      have 3: "\<forall>i<Suc n. isl (checked (f (fetch_calls st + i)))"
      proof (intro allI impI)
        fix i assume "i < Suc n"
        show "isl (checked (f (fetch_calls st + i)))"
        proof (cases i)
          case 0
          with Inl show ?thesis by simp
        next
          case (Suc j)
          with \<open>i < Suc n\<close> n(3) show ?thesis by simp
        qed
      qed
      have 4: "isl (checked (f (fetch_calls st + Suc n))) \<longrightarrow> ?a + Suc n = maxRetries"
        using n(4) a' by simp
      from 1 2 3 4 show ?thesis by blast
    qed
  qed
qed

lemma backoff_delays:
  "n \<le> 3 \<Longrightarrow> map (\<lambda>i. retryDelay * 2 ^ i) [0 ..< n] = take n [1000, 2000, 4000]"
proof -
  assume "n \<le> 3"
  then consider "n = 0" | "n = 1" | "n = 2" | "n = 3"
    by arith
  then show ?thesis
    by cases (simp_all add: retryDelay_def upt_rec)
qed

text \<open>
  C4. A request that starts with no retry in progress is tried, and after each failure
  (a rejection or a response that is not ok) tried again, at most three times, after
  waiting 1000, 2000 and 4000 milliseconds: the timeouts awaited are the first \<open>n\<close> of
  these, for the number \<open>n \<le> 3\<close> of retries, and the original \<^verbatim>\<open>fetch\<close> is called
  \<open>n + 1\<close> times. The result is the outcome of the last call, every call before it
  failed, and a failure reaches the caller only after the third retry. The function
  returns for every input; it leaves no counter behind.
\<close>

theorem fetchWithRetry_three_retries_then_failure:
  assumes "retryAttempts st retryKey = None"
  shows "\<exists>n\<le>3.
     fetchWithRetry originalFetch retryKey st =
       (checked (originalFetch (fetch_calls st + n)),
        st \<lparr> fetch_calls := fetch_calls st + n + 1,
             delays := delays st @ take n [1000, 2000, 4000] \<rparr>) \<and>
     (\<forall>i<n. isl (checked (originalFetch (fetch_calls st + i)))) \<and>
     (isl (checked (originalFetch (fetch_calls st + n))) \<longrightarrow> n = 3)"
proof -
  have fresh: "attempts_of st retryKey = 0"
    using assms by (simp add: attempts_of_def)
  then have "attempts_of st retryKey \<le> maxRetries"
    by simp
  from fetchWithRetry_run [OF this, of originalFetch]
  obtain n where n: "n \<le> maxRetries"
    "fetchWithRetry originalFetch retryKey st =
       (checked (originalFetch (fetch_calls st + n)),
        st \<lparr> fetch_calls := fetch_calls st + n + 1,
             retryAttempts := (retryAttempts st)(retryKey := None),
             delays := delays st @ map (\<lambda>i. retryDelay * 2 ^ i) [0 ..< n] \<rparr>)"
    "\<forall>i<n. isl (checked (originalFetch (fetch_calls st + i)))"
    "isl (checked (originalFetch (fetch_calls st + n))) \<longrightarrow> n = maxRetries"
    unfolding fresh by auto
  have le: "n \<le> 3"
    using n(1) by (simp add: maxRetries_def)
  have same: "(retryAttempts st)(retryKey := None) = retryAttempts st"
    using assms by (simp add: fun_upd_idem)
  have "fetchWithRetry originalFetch retryKey st =
       (checked (originalFetch (fetch_calls st + n)),
        st \<lparr> fetch_calls := fetch_calls st + n + 1,
             delays := delays st @ take n [1000, 2000, 4000] \<rparr>)"
    unfolding n(2) same backoff_delays [OF le] by simp
  moreover have "isl (checked (originalFetch (fetch_calls st + n))) \<longrightarrow> n = 3"
    using n(4) by (simp add: maxRetries_def)
  ultimately show ?thesis
    using le n(3) by blast
qed

text \<open>
  The instance: the request for the English dictionary while every call of the original
  \<^verbatim>\<open>fetch\<close> is rejected. The error reaches the caller after four calls and the
  three timeouts.
\<close>

theorem fetchWithRetry_three_retries_then_failure_witness:
  "retryAttempts \<lparr> retryAttempts = Map.empty, fetch_calls = 0, delays = [] \<rparr>
     ''assets/i18n/en.json-{}'' = None \<and>
   window_fetch (\<lambda>call. Inl NetworkError) ''assets/i18n/en.json'' ''{}''
     \<lparr> retryAttempts = Map.empty, fetch_calls = 0, delays = [] \<rparr>
   = (Inl NetworkError,
      \<lparr> retryAttempts = Map.empty, fetch_calls = 4, delays = [1000, 2000, 4000] \<rparr>)"
proof -
  let ?st = "\<lparr> retryAttempts = Map.empty, fetch_calls = 0, delays = [] \<rparr>"
  let ?net = "\<lambda>call::nat. (Inl NetworkError :: error + response)"
  have fresh: "retryAttempts ?st ''assets/i18n/en.json-{}'' = None"
    by simp
  have rejected: "checked (?net i) = Inl NetworkError" for i
    by (simp add: checked_def and_then_def)
  from fetchWithRetry_three_retries_then_failure [OF fresh, of ?net]
  obtain n where "fetchWithRetry ?net ''assets/i18n/en.json-{}'' ?st =
       (checked (?net (fetch_calls ?st + n)),
        ?st \<lparr> fetch_calls := fetch_calls ?st + n + 1,
              delays := delays ?st @ take n [1000, 2000, 4000] \<rparr>)"
    and "isl (checked (?net (fetch_calls ?st + n))) \<longrightarrow> n = 3"
    by blast
  then have "fetchWithRetry ?net ''assets/i18n/en.json-{}'' ?st =
      (Inl NetworkError,
       \<lparr> retryAttempts = Map.empty, fetch_calls = 4, delays = [1000, 2000, 4000] \<rparr>)"
    by (simp add: rejected)
  then show ?thesis
    by (simp add: window_fetch_def)
qed

section \<open>Properties of the projects page\<close>

lemma createProjectCard_result:
  "\<exists>summary. createProjectCard h s p i =
     Inr \<lparr> card_project = p, card_index = i, card_summary = summary \<rparr>"
proof -
  obtain v where "t h s (JStr (summary_i18n_key p)) (JStr ''Project description not available'') = Inr v"
    using t_string_total by blast
  then show ?thesis
    by (simp add: createProjectCard_def and_then_Inr)
qed

lemma append_cards_result:
  "\<exists>cards. append_cards h s ps i = (map ProjectCard cards, None) \<and>
     map card_project cards = ps \<and> map card_index cards = [i ..< i + length ps]"
proof (induction ps arbitrary: i)
  case Nil
  show ?case by simp
next
  case (Cons p ps)
  obtain summary where c: "createProjectCard h s p i =
     Inr \<lparr> card_project = p, card_index = i, card_summary = summary \<rparr>"
    using createProjectCard_result by blast
  obtain cards where cards: "append_cards h s ps (i + 1) = (map ProjectCard cards, None)"
    "map card_project cards = ps" "map card_index cards = [i + 1 ..< i + 1 + length ps]"
    using Cons.IH by blast
  let ?c = "\<lparr> card_project = p, card_index = i, card_summary = summary \<rparr>"
  have "append_cards h s (p # ps) i = (map ProjectCard (?c # cards), None)"
    using c cards(1) by simp
  moreover have "map card_project (?c # cards) = p # ps"
    using cards(2) by simp
  moreover have "[i ..< i + length (p # ps)] = i # [i + 1 ..< i + 1 + length ps]"
    by (subst upt_rec) simp
  then have "map card_index (?c # cards) = [i ..< i + length (p # ps)]"
    using cards(3) by simp
  ultimately show ?case
    by (intro exI [of _ "?c # cards"]) simp
qed

lemma cards_of_cards: "cards_of (map ProjectCard cards) = cards"
  by (induction cards) simp_all

lemma renderProjectGrid_result:
  "\<exists>children. renderProjectGrid h s ps = (children, None) \<and>
     map card_project (cards_of children) = ps \<and>
     map card_index (cards_of children) = [0 ..< length ps] \<and>
     (children = map ProjectCard (cards_of children) \<or> (\<exists>message. children = [EmptyState message]))"
proof (cases "ps = []")
  case True
  obtain m where "t h s (JStr ''projects.empty'') (JStr ''No projects found in this category.'') = Inr m"
    using t_string_total by blast
  with True show ?thesis
    by (simp add: renderProjectGrid_def)
next
  case False
  obtain cards where "append_cards h s ps 0 = (map ProjectCard cards, None)"
    "map card_project cards = ps" "map card_index cards = [0 ..< 0 + length ps]"
    using append_cards_result by blast
  with False show ?thesis
    by (simp add: renderProjectGrid_def cards_of_cards)
qed

lemma mset_status_partition:
  assumes "\<forall>p\<in>set ps. status p = ''ongoing'' \<or> status p = ''completed''"
  shows "mset (filter (\<lambda>p. status p = ''ongoing'') ps)
       + mset (filter (\<lambda>p. status p = ''completed'') ps) = mset ps"
  using assms by (induction ps) auto

lemma showProjectDetail_result:
  assumes "project_detail a = Some detailSection"
  shows "\<exists>view. showProjectDetail h s a p =
     (a \<lparr> location_hash := ''#'' @ slug p,
          project_detail := Some (detailSection \<lparr> content := Some view, hidden := False, dialog := True \<rparr>) \<rparr>,
      None) \<and> view_project view = p"
proof -
  obtain summary where 1: "t h s (JStr (summary_i18n_key p)) (JStr ''Project description not available'') = Inr summary"
    using t_string_total by blast
  obtain l1 where l1: "t h s (JStr ''projects.details.close_details'') (JStr ''Close Details'') = Inr l1"
    using t_string_total by blast
  obtain l3 where l3: "t h s (JStr ''projects.details.scope'') (JStr ''Project Scope'') = Inr l3"
    using t_string_total by blast
  obtain l4 where l4: "t h s (JStr ''projects.details.location'') (JStr ''Location'') = Inr l4"
    using t_string_total by blast
  obtain l5 where l5: "t h s (JStr ''projects.details.year'') (JStr ''Year'') = Inr l5"
    using t_string_total by blast
  obtain l6 where l6: "t h s (JStr ''projects.details.status'') (JStr ''Status'') = Inr l6"
    using t_string_total by blast
  have labels: "detail_labels h s = Inr [l1, l1, l3, l4, l5, l6]"
    by (simp add: detail_labels_def l1 l3 l4 l5 l6 and_then_Inr)
  let ?view = "\<lparr> view_project = p, view_summary = summary,
                  view_labels = [l1, l1, l3, l4, l5, l6] \<rparr>"
  have "showProjectDetail h s a p =
     (a \<lparr> location_hash := ''#'' @ slug p,
          project_detail := Some (detailSection \<lparr> content := Some ?view, hidden := False, dialog := True \<rparr>) \<rparr>,
      None)"
    using assms by (simp add: showProjectDetail_def Let_def 1 labels and_then_Inr)
  moreover have "view_project ?view = p"
    by simp
  ultimately show ?thesis
    by blast
qed

lemma renderProjectTabs_frame:
  "\<exists>g1 g2. renderProjectTabs h s a = a \<lparr> ongoing_grid := g1, completed_grid := g2 \<rparr>"
proof (cases "ongoing_grid a = None \<or> completed_grid a = None")
  case True
  then have "renderProjectTabs h s a = a \<lparr> ongoing_grid := ongoing_grid a, completed_grid := completed_grid a \<rparr>"
    by (simp add: renderProjectTabs_def)
  then show ?thesis by blast
next
  case grids: False
  show ?thesis
  proof (cases "projects a")
    case None
    with grids have "renderProjectTabs h s a = a \<lparr> ongoing_grid := ongoing_grid a, completed_grid := completed_grid a \<rparr>"
      by (simp add: renderProjectTabs_def)
    then show ?thesis by blast
  next
    case (Some ps)
    obtain g1 where g1: "renderProjectGrid h s (filter (\<lambda>p. status p = ''ongoing'') ps) = (g1, None)"
      using renderProjectGrid_result by blast
    obtain g2 where g2: "renderProjectGrid h s (filter (\<lambda>p. status p = ''completed'') ps) = (g2, None)"
      using renderProjectGrid_result by blast
    have "renderProjectTabs h s a = a \<lparr> ongoing_grid := Some g1, completed_grid := Some g2 \<rparr>"
      using grids Some g1 g2 by (auto simp: renderProjectTabs_def)
    then show ?thesis by blast
  qed
qed

lemma find_by_slug_Some:
  "find_by_slug ps target = Some p \<Longrightarrow> p \<in> set ps \<and> slug p = target"
  unfolding find_by_slug_def by (induction ps) (auto split: if_splits)

lemma find_by_slug_None:
  "(find_by_slug ps target = None) = (\<forall>p\<in>set ps. slug p \<noteq> target)"
  unfolding find_by_slug_def by (induction ps) auto

lemma page_loaded:
  assumes "outcome = Inr response" and "ok response" and "decode (body response) = Inr (Some ps)"
    and "target \<noteq> []"
  shows "\<exists>g1 g2. loadProjects_settled h s decode outcome
           (initProjectsPage (App_new (''#'' @ target) ongoing completed detail)) =
         \<lparr> projects = Some ps, initialHash = Some target, location_hash = ''#'' @ target,
           ongoing_grid = g1, completed_grid = g2, project_detail = detail,
           timers = (case find_by_slug ps target of Some p \<Rightarrow> [(True, p)] | None \<Rightarrow> []) \<rparr>"
proof -
  let ?a1 = "initProjectsPage (App_new (''#'' @ target) ongoing completed detail)"
  have a1: "?a1 = \<lparr> projects = None, initialHash = Some target, location_hash = ''#'' @ target,
           ongoing_grid = map_option (\<lambda>children. [Loading]) ongoing,
           completed_grid = map_option (\<lambda>children. [Loading]) completed,
           project_detail = detail, timers = [] \<rparr>"
    by (simp add: initProjectsPage_def setupProjectDeepLinking_def loadProjects_request_def
        fill_grids_def App_new_def)
  let ?a2 = "?a1 \<lparr> projects := Some ps \<rparr>"
  obtain g1 g2 where r: "renderProjectTabs h s ?a2 = ?a2 \<lparr> ongoing_grid := g1, completed_grid := g2 \<rparr>"
    using renderProjectTabs_frame by blast
  have "loadProjects_loaded h s decode outcome ?a1 =
      Inr \<lparr> projects = Some ps, initialHash = Some target, location_hash = ''#'' @ target,
           ongoing_grid = g1, completed_grid = g2, project_detail = detail,
           timers = (case find_by_slug ps target of Some p \<Rightarrow> [(True, p)] | None \<Rightarrow> []) \<rparr>"
    using assms r unfolding a1
    by (simp add: loadProjects_loaded_def and_then_Inr Let_def split: option.splits)
  then show ?thesis
    by (simp add: loadProjects_settled_def)
qed

text \<open>
  C2. For a collection in which every record has the status \<^verbatim>\<open>ongoing\<close> or
  \<^verbatim>\<open>completed\<close>, on a page that has both grids, \<^verbatim>\<open>renderProjectTabs\<close> fills the
  ongoing grid with one card per ongoing record and the completed grid with one card
  per completed record, in the order of the collection and numbered from 0 (a grid
  without records gets the empty-state message instead). The cards of the two grids
  together are the records of the collection, each exactly once.
\<close>

theorem tabs_partition_projects:
  assumes "projects a = Some ps"
    and "ongoing_grid a \<noteq> None" and "completed_grid a \<noteq> None"
    and "\<forall>p\<in>set ps. status p = ''ongoing'' \<or> status p = ''completed''"
  shows "\<exists>ongoing completed.
     ongoing_grid (renderProjectTabs h s a) = Some ongoing \<and>
     completed_grid (renderProjectTabs h s a) = Some completed \<and>
     map card_project (cards_of ongoing) = filter (\<lambda>p. status p = ''ongoing'') ps \<and>
     map card_project (cards_of completed) = filter (\<lambda>p. status p = ''completed'') ps \<and>
     map card_index (cards_of ongoing) = [0 ..< length (cards_of ongoing)] \<and>
     map card_index (cards_of completed) = [0 ..< length (cards_of completed)] \<and>
     (ongoing = map ProjectCard (cards_of ongoing) \<or> (\<exists>message. ongoing = [EmptyState message])) \<and>
     (completed = map ProjectCard (cards_of completed) \<or> (\<exists>message. completed = [EmptyState message])) \<and>
     mset (map card_project (cards_of ongoing)) + mset (map card_project (cards_of completed))
       = mset ps"
proof -
  let ?on = "filter (\<lambda>p. status p = ''ongoing'') ps"
  let ?co = "filter (\<lambda>p. status p = ''completed'') ps"
  obtain g1 where g1: "renderProjectGrid h s ?on = (g1, None)"
    "map card_project (cards_of g1) = ?on"
    "map card_index (cards_of g1) = [0 ..< length ?on]"
    "g1 = map ProjectCard (cards_of g1) \<or> (\<exists>message. g1 = [EmptyState message])"
    using renderProjectGrid_result by blast
  obtain g2 where g2: "renderProjectGrid h s ?co = (g2, None)"
    "map card_project (cards_of g2) = ?co"
    "map card_index (cards_of g2) = [0 ..< length ?co]"
    "g2 = map ProjectCard (cards_of g2) \<or> (\<exists>message. g2 = [EmptyState message])"
    using renderProjectGrid_result by blast
  have r: "renderProjectTabs h s a = a \<lparr> ongoing_grid := Some g1, completed_grid := Some g2 \<rparr>"
    using assms(1-3) g1(1) g2(1) by (auto simp: renderProjectTabs_def)
  have l1: "length (cards_of g1) = length ?on"
    using g1(2) by (metis length_map)
  have l2: "length (cards_of g2) = length ?co"
    using g2(2) by (metis length_map)
  have m: "mset (map card_project (cards_of g1)) + mset (map card_project (cards_of g2)) = mset ps"
    unfolding g1(2) g2(2) using assms(4) by (rule mset_status_partition)
  show ?thesis
  proof (intro exI conjI)
    show "ongoing_grid (renderProjectTabs h s a) = Some g1"
      using r by simp
    show "completed_grid (renderProjectTabs h s a) = Some g2"
      using r by simp
    show "map card_project (cards_of g1) = ?on"
      by (rule g1(2))
    show "map card_project (cards_of g2) = ?co"
      by (rule g2(2))
    show "map card_index (cards_of g1) = [0 ..< length (cards_of g1)]"
      using g1(3) l1 by simp
    show "map card_index (cards_of g2) = [0 ..< length (cards_of g2)]"
      using g2(3) l2 by simp
    show "g1 = map ProjectCard (cards_of g1) \<or> (\<exists>message. g1 = [EmptyState message])"
      by (rule g1(4))
    show "g2 = map ProjectCard (cards_of g2) \<or> (\<exists>message. g2 = [EmptyState message])"
      by (rule g2(4))
    show "mset (map card_project (cards_of g1)) + mset (map card_project (cards_of g2)) = mset ps"
      by (rule m)
  qed
qed

text \<open>
  The instance is the scenario of the specification: \<^verbatim>\<open>bridge-a\<close> is ongoing,
  \<^verbatim>\<open>road-b\<close> is completed, and the completed grid gets exactly one card, for
  \<^verbatim>\<open>road-b\<close>.
\<close>

theorem tabs_partition_projects_witness:
  "projects ((App_new [] (Some []) (Some []) None) \<lparr> projects := Some [bridge_a, road_b] \<rparr>)
     = Some [bridge_a, road_b] \<and>
   status bridge_a = ''ongoing'' \<and> status road_b = ''completed'' \<and>
   (\<exists>ongoing completed.
      ongoing_grid (renderProjectTabs plain_host I18n_new
         ((App_new [] (Some []) (Some []) None) \<lparr> projects := Some [bridge_a, road_b] \<rparr>))
        = Some ongoing \<and>
      completed_grid (renderProjectTabs plain_host I18n_new
         ((App_new [] (Some []) (Some []) None) \<lparr> projects := Some [bridge_a, road_b] \<rparr>))
        = Some completed \<and>
      map card_project (cards_of ongoing) = [bridge_a] \<and>
      map card_project (cards_of completed) = [road_b] \<and>
      completed = map ProjectCard (cards_of completed))"
proof -
  let ?a = "(App_new [] (Some []) (Some []) None) \<lparr> projects := Some [bridge_a, road_b] \<rparr>"
  have 1: "projects ?a = Some [bridge_a, road_b]"
    by simp
  have 2: "ongoing_grid ?a \<noteq> None" "completed_grid ?a \<noteq> None"
    by (simp_all add: App_new_def)
  have 3: "status bridge_a = ''ongoing''" "status road_b = ''completed''"
    by (simp_all add: bridge_a_def road_b_def)
  then have 4: "\<forall>p\<in>set [bridge_a, road_b]. status p = ''ongoing'' \<or> status p = ''completed''"
    by simp
  from tabs_partition_projects [OF 1 2 4, of plain_host I18n_new]
  obtain ongoing completed where r:
    "ongoing_grid (renderProjectTabs plain_host I18n_new ?a) = Some ongoing"
    "completed_grid (renderProjectTabs plain_host I18n_new ?a) = Some completed"
    "map card_project (cards_of ongoing) = filter (\<lambda>p. status p = ''ongoing'') [bridge_a, road_b]"
    "map card_project (cards_of completed) = filter (\<lambda>p. status p = ''completed'') [bridge_a, road_b]"
    "completed = map ProjectCard (cards_of completed) \<or> (\<exists>message. completed = [EmptyState message])"
    by blast
  have on: "map card_project (cards_of ongoing) = [bridge_a]"
    using r(3) 3 by simp
  have co: "map card_project (cards_of completed) = [road_b]"
    using r(4) 3 by simp
  then have "completed = map ProjectCard (cards_of completed)"
    using r(5) by auto
  with 1 3 r(1,2) on co show ?thesis
    by auto
qed

text \<open>
  C6. The projects page is loaded with a hash \<^verbatim>\<open>#target\<close> and has a detail section;
  the request for the collection succeeds. If some record has the slug \<^verbatim>\<open>target\<close>,
  then after the collection is loaded and the timeout has fired the detail section
  shows the (first) record with that slug, is no longer hidden, and the hash is
  \<^verbatim>\<open>#target\<close>. If no record has that slug, the detail section is as it was. In both
  cases no error is left uncaught.
\<close>

theorem deep_link_opens_detail:
  assumes "outcome = Inr response" and "ok response" and "decode (body response) = Inr (Some ps)"
    and "target \<noteq> []"
  shows "((\<exists>p\<in>set ps. slug p = target) \<longrightarrow>
           (\<exists>a p view.
              projects_page_load h s decode outcome
                (App_new (''#'' @ target) ongoing completed (Some detailSection)) = (a, []) \<and>
              find_by_slug ps target = Some p \<and> p \<in> set ps \<and> slug p = target \<and>
              project_detail a =
                Some (detailSection \<lparr> content := Some view, hidden := False, dialog := True \<rparr>) \<and>
              view_project view = p \<and> location_hash a = ''#'' @ target)) \<and>
         ((\<forall>p\<in>set ps. slug p \<noteq> target) \<longrightarrow>
           (\<exists>a. projects_page_load h s decode outcome
                  (App_new (''#'' @ target) ongoing completed (Some detailSection)) = (a, []) \<and>
                project_detail a = Some detailSection \<and> location_hash a = ''#'' @ target))"
proof (intro conjI impI)
  obtain g1 g2 where loaded: "loadProjects_settled h s decode outcome
           (initProjectsPage (App_new (''#'' @ target) ongoing completed (Some detailSection))) =
         \<lparr> projects = Some ps, initialHash = Some target, location_hash = ''#'' @ target,
           ongoing_grid = g1, completed_grid = g2, project_detail = Some detailSection,
           timers = (case find_by_slug ps target of Some p \<Rightarrow> [(True, p)] | None \<Rightarrow> []) \<rparr>"
    using page_loaded [where decode = decode and outcome = outcome, OF assms] by blast
  {
    assume "\<exists>p\<in>set ps. slug p = target"
    then obtain p where p: "find_by_slug ps target = Some p"
      using find_by_slug_None [of ps target] by (cases "find_by_slug ps target") auto
    then have in_ps: "p \<in> set ps" "slug p = target"
      using find_by_slug_Some by blast+
    let ?a = "\<lparr> projects = Some ps, initialHash = Some target, location_hash = ''#'' @ target,
           ongoing_grid = g1, completed_grid = g2, project_detail = Some detailSection,
           timers = [] \<rparr>"
    have "project_detail ?a = Some detailSection"
      by simp
    from showProjectDetail_result [OF this, of h s p]
    obtain view where view: "showProjectDetail h s ?a p =
       (?a \<lparr> location_hash := ''#'' @ slug p,
            project_detail := Some (detailSection \<lparr> content := Some view, hidden := False, dialog := True \<rparr>) \<rparr>,
        None)" "view_project view = p"
      by blast
    let ?r = "?a \<lparr> location_hash := ''#'' @ slug p,
            project_detail := Some (detailSection \<lparr> content := Some view, hidden := False, dialog := True \<rparr>) \<rparr>"
    have "projects_page_load h s decode outcome
                (App_new (''#'' @ target) ongoing completed (Some detailSection)) = (?r, [])"
      unfolding projects_page_load_def loaded
      using p view(1) by (simp add: run_timers_def fire_def)
    with p in_ps view(2)
    show "\<exists>a p view.
              projects_page_load h s decode outcome
                (App_new (''#'' @ target) ongoing completed (Some detailSection)) = (a, []) \<and>
              find_by_slug ps target = Some p \<and> p \<in> set ps \<and> slug p = target \<and>
              project_detail a =
                Some (detailSection \<lparr> content := Some view, hidden := False, dialog := True \<rparr>) \<and>
              view_project view = p \<and> location_hash a = ''#'' @ target"
      by (intro exI [of _ ?r] exI [of _ p] exI [of _ view]) simp
  }
  {
    assume "\<forall>p\<in>set ps. slug p \<noteq> target"
    then have none: "find_by_slug ps target = None"
      using find_by_slug_None by blast
    let ?a = "\<lparr> projects = Some ps, initialHash = Some target, location_hash = ''#'' @ target,
           ongoing_grid = g1, completed_grid = g2, project_detail = Some detailSection,
           timers = [] \<rparr>"
    have "projects_page_load h s decode outcome
                (App_new (''#'' @ target) ongoing completed (Some detailSection)) = (?a, [])"
      unfolding projects_page_load_def loaded
      using none by (simp add: run_timers_def)
    then show "\<exists>a. projects_page_load h s decode outcome
                  (App_new (''#'' @ target) ongoing completed (Some detailSection)) = (a, []) \<and>
                project_detail a = Some detailSection \<and> location_hash a = ''#'' @ target"
      by (intro exI [of _ ?a]) simp
  }
qed

theorem deep_link_opens_detail_witness:
  "ok \<lparr> ok = True, status = 200, body = ''projects.json'' \<rparr> \<and>
   slug road_b = ''road-b'' \<and> slug bridge_a \<noteq> ''tunnel-c'' \<and> slug road_b \<noteq> ''tunnel-c'' \<and>
   (\<exists>a view.
      projects_page_load plain_host I18n_new (\<lambda>text. Inr (Some [bridge_a, road_b]))
        (Inr \<lparr> ok = True, status = 200, body = ''projects.json'' \<rparr>)
        (App_new ''#road-b'' (Some []) (Some [])
           (Some \<lparr> hidden = True, dialog = False, content = None \<rparr>)) = (a, []) \<and>
      project_detail a = Some \<lparr> hidden = False, dialog = True, content = Some view \<rparr> \<and>
      view_project view = road_b \<and> location_hash a = ''#road-b'') \<and>
   (\<exists>a.
      projects_page_load plain_host I18n_new (\<lambda>text. Inr (Some [bridge_a, road_b]))
        (Inr \<lparr> ok = True, status = 200, body = ''projects.json'' \<rparr>)
        (App_new ''#tunnel-c'' (Some []) (Some [])
           (Some \<lparr> hidden = True, dialog = False, content = None \<rparr>)) = (a, []) \<and>
      project_detail a = Some \<lparr> hidden = True, dialog = False, content = None \<rparr> \<and>
      location_hash a = ''#tunnel-c'')"
proof -
  let ?response = "\<lparr> ok = True, status = 200, body = ''projects.json'' \<rparr>"
  let ?decode = "\<lambda>text::string. (Inr (Some [bridge_a, road_b]) :: error + project list option)"
  let ?sect = "\<lparr> hidden = True, dialog = False, content = None \<rparr>"
  have o: "(Inr ?response :: error + response) = Inr ?response" "ok ?response"
    "?decode (body ?response) = Inr (Some [bridge_a, road_b])"
    by simp_all
  have slugs: "slug road_b = ''road-b''" "slug bridge_a \<noteq> ''tunnel-c''" "slug road_b \<noteq> ''tunnel-c''"
    "slug bridge_a \<noteq> ''road-b''"
    by (simp_all add: bridge_a_def road_b_def)
  have found: "find_by_slug [bridge_a, road_b] ''road-b'' = Some road_b"
    using slugs by (simp add: find_by_slug_def)
  have t1: "''road-b'' \<noteq> []" and t2: "''tunnel-c'' \<noteq> []"
    by simp_all
  note claim = deep_link_opens_detail [where decode = ?decode and h = plain_host and s = I18n_new
      and ongoing = "Some []" and completed = "Some []" and detailSection = ?sect, OF o]
  have "\<exists>p\<in>set [bridge_a, road_b]. slug p = ''road-b''"
    using slugs by simp
  with claim [OF t1] found
  have open_detail: "\<exists>a view.
      projects_page_load plain_host I18n_new ?decode (Inr ?response)
        (App_new ''#road-b'' (Some []) (Some []) (Some ?sect)) = (a, []) \<and>
      project_detail a = Some \<lparr> hidden = False, dialog = True, content = Some view \<rparr> \<and>
      view_project view = road_b \<and> location_hash a = ''#road-b''"
    by auto
  have "\<forall>p\<in>set [bridge_a, road_b]. slug p \<noteq> ''tunnel-c''"
    using slugs by simp
  with claim [OF t2]
  have closed: "\<exists>a.
      projects_page_load plain_host I18n_new ?decode (Inr ?response)
        (App_new ''#tunnel-c'' (Some []) (Some []) (Some ?sect)) = (a, []) \<and>
      project_detail a = Some ?sect \<and> location_hash a = ''#tunnel-c''"
    by auto
  from o(2) slugs(1-3) open_detail closed show ?thesis
    by auto
qed

end
